theory Spec2Isabelle
  imports Main "HOL-Library.Word"
begin

unbundle bit_operations_syntax

section \<open>Data model of the Verilated register file\<close>

text \<open>
  The generated C++ stores every signal in a sized unsigned integer:
  \<^verbatim>\<open>CData\<close> (8 bits), \<^verbatim>\<open>IData\<close> (32 bits) and \<^verbatim>\<open>QData\<close> (64 bits).
  All arithmetic on them wraps, as word arithmetic does.
\<close>

type_synonym CData = "8 word"
type_synonym IData = "32 word"
type_synonym QData = "64 word"

text \<open>
  \<^verbatim>\<open>VlTriggerVec<N>\<close> belongs to the simulator's runtime library, which is not part of
  the repository. The generated code reads it through \<^verbatim>\<open>word(0U)\<close> and masks the result
  with 64-bit constants (\<^verbatim>\<open>3ULL\<close>, \<^verbatim>\<open>1ULL\<close>), so for N \<le> 64 it is one 64-bit word of
  flags. \<^verbatim>\<open>word\<close>, \<^verbatim>\<open>any\<close>, \<^verbatim>\<open>andNot\<close>, \<^verbatim>\<open>thisOr\<close> and \<^verbatim>\<open>clear\<close> are the operations
  the generated code calls; \<^verbatim>\<open>setBit\<close> (clear the flag, then write the value) is
  the one a trigger evaluator writes a flag with.
\<close>

type_synonym VlTriggerVec = "64 word"

definition trig_word :: "VlTriggerVec \<Rightarrow> QData" where
  "trig_word t = t"

definition trig_any :: "VlTriggerVec \<Rightarrow> bool" where
  "trig_any t = (t \<noteq> 0)"

definition trig_setBit :: "nat \<Rightarrow> bool \<Rightarrow> VlTriggerVec \<Rightarrow> VlTriggerVec" where
  "trig_setBit i v t = ((t AND NOT (push_bit i 1)) OR push_bit i (if v then 1 else 0))"

definition trig_andNot :: "VlTriggerVec \<Rightarrow> VlTriggerVec \<Rightarrow> VlTriggerVec" where
  "trig_andNot a b = (a AND NOT b)"

definition trig_thisOr :: "VlTriggerVec \<Rightarrow> VlTriggerVec \<Rightarrow> VlTriggerVec" where
  "trig_thisOr this other = (this OR other)"

definition trig_clear :: VlTriggerVec where
  "trig_clear = 0"

text \<open>The design state of \<^verbatim>\<open>Vregfile___024root\<close>, field by field.\<close>

record Vregfile_root =
  clock :: CData
  reset :: CData
  VstlFirstIteration :: CData
  Vtrigprevexpr_TOP_clock_0 :: CData
  Vtrigprevexpr_TOP_reset_0 :: CData
  VactContinue :: CData
  val :: IData
  VactIterCount :: IData
  regfile_DOT_regs :: QData
  VstlTriggered :: VlTriggerVec
  VactTriggered :: VlTriggerVec
  VnbaTriggered :: VlTriggerVec

text \<open>\<^verbatim>\<open>Vregfile__Syms\<close>: the model state around the design state.\<close>

record Vregfile_Syms =
  Vm_didInit :: bool
  TOP :: Vregfile_root

text \<open>
  \<^verbatim>\<open>VL_FATAL_MT(file, line, hier, msg)\<close> ends the simulation run. The model returns
  its four arguments as the error value.
\<close>

datatype fatal =
  Fatal (fatal_file: string) (fatal_line: nat) (fatal_hier: string) (fatal_msg: string)

section \<open>Sequential logic: the NBA block\<close>

text \<open>
  \<^verbatim>\<open>Vregfile___024root___nba_sequent__TOP__0\<close>, statement by statement. A frame pairs the
  design state with the local \<^verbatim>\<open>__Vdly__regfile__DOT__regs\<close>.
\<close>

type_synonym nba_frame = "Vregfile_root \<times> QData"

definition nba_enter :: "Vregfile_root \<Rightarrow> nba_frame" where
  "nba_enter s = (s, 0)"

definition nba_load :: "nba_frame \<Rightarrow> nba_frame" where
  "nba_load f = (fst f, regfile_DOT_regs (fst f))"

definition nba_clear :: "nba_frame \<Rightarrow> nba_frame" where
  "nba_clear f = (fst f, 0)"

definition nba_inc_low :: "nba_frame \<Rightarrow> nba_frame" where
  "nba_inc_low f =
     (fst f, (0xffffffff00000000 AND snd f)
             OR ucast ((1 :: IData) + ucast (regfile_DOT_regs (fst f))))"

definition nba_inc_high :: "nba_frame \<Rightarrow> nba_frame" where
  "nba_inc_high f =
     (fst f, (0xffffffff0000ffff AND snd f)
             OR push_bit 0x10
                  (ucast ((0x0000ffff :: IData)
                          AND (1 + ucast (drop_bit 0x10 (regfile_DOT_regs (fst f)))))))"

definition nba_branch :: "nba_frame \<Rightarrow> nba_frame" where
  "nba_branch f =
     (if reset (fst f) \<noteq> 0 then nba_clear f else nba_inc_high (nba_inc_low f))"

definition nba_commit :: "nba_frame \<Rightarrow> Vregfile_root" where
  "nba_commit f = (fst f)\<lparr>regfile_DOT_regs := snd f\<rparr>"

definition nba_output :: "Vregfile_root \<Rightarrow> Vregfile_root" where
  "nba_output s =
     s\<lparr>val := (0x0000000e AND push_bit 1 (ucast (drop_bit 0x11 (regfile_DOT_regs s)) :: IData))
               OR (1 AND ucast (regfile_DOT_regs s))\<rparr>"

definition nba_sequent_TOP_0 :: "Vregfile_root \<Rightarrow> Vregfile_root" where
  "nba_sequent_TOP_0 s = nba_output (nba_commit (nba_branch (nba_load (nba_enter s))))"

definition eval_act :: "Vregfile_root \<Rightarrow> Vregfile_root" where
  "eval_act s = s"

definition eval_nba :: "Vregfile_root \<Rightarrow> Vregfile_root" where
  "eval_nba s =
     (if 3 AND trig_word (VnbaTriggered s) \<noteq> 0 then nba_sequent_TOP_0 s else s)"

section \<open>Settle logic\<close>

definition stl_sequent_TOP_0 :: "Vregfile_root \<Rightarrow> Vregfile_root" where
  "stl_sequent_TOP_0 s =
     s\<lparr>val := (0x0000000e AND push_bit 1 (ucast (drop_bit 0x11 (regfile_DOT_regs s)) :: IData))
               OR (1 AND ucast (regfile_DOT_regs s))\<rparr>"

definition eval_stl :: "Vregfile_root \<Rightarrow> Vregfile_root" where
  "eval_stl s =
     (if 1 AND trig_word (VstlTriggered s) \<noteq> 0 then stl_sequent_TOP_0 s else s)"

section \<open>Trigger evaluation\<close>

text \<open>
  Modelled from the spec: \<^verbatim>\<open>Vregfile___024root___eval_triggers__act\<close> is declared and called
  in the sources but its body is in a file that is not part of them. The specification
  says: for each monitored signal, compare the current value to the previously
  snapshotted value to detect a rising edge (0 to 1 transition); produce a trigger vector
  with one bit per watched edge; record the current values as previous for the next edge
  detection. The source's trigger dump fixes the bit order: index 0 is the rising edge
  of clock, index 1 the rising edge of reset.
\<close>

definition rising :: "CData \<Rightarrow> CData \<Rightarrow> bool" where
  "rising prev cur = (prev = 0 \<and> cur = 1)"

definition eval_triggers_act :: "Vregfile_root \<Rightarrow> Vregfile_root" where
  "eval_triggers_act s =
     s\<lparr>VactTriggered :=
          trig_setBit 1 (rising (Vtrigprevexpr_TOP_reset_0 s) (reset s))
            (trig_setBit 0 (rising (Vtrigprevexpr_TOP_clock_0 s) (clock s))
               (VactTriggered s)),
        Vtrigprevexpr_TOP_clock_0 := clock s,
        Vtrigprevexpr_TOP_reset_0 := reset s\<rparr>"

text \<open>
  Modelled from the spec: \<^verbatim>\<open>Vregfile___024root___eval_triggers__stl\<close> is likewise declared
  and called only. The specification gives the settle phase a first-iteration-only
  trigger, and the source's trigger dump names index 0 "Internal 'stl' trigger - first
  iteration".
\<close>

definition eval_triggers_stl :: "Vregfile_root \<Rightarrow> Vregfile_root" where
  "eval_triggers_stl s =
     s\<lparr>VstlTriggered := trig_setBit 0 (VstlFirstIteration s \<noteq> 0) (VstlTriggered s)\<rparr>"

section \<open>Region phases\<close>

text \<open>
  Each phase returns whether it executed, with the new state. The local
  \<^verbatim>\<open>__VpreTriggered\<close> of the active phase is computed and never read, so it is left out.
\<close>

definition eval_phase_act :: "Vregfile_root \<Rightarrow> bool \<times> Vregfile_root" where
  "eval_phase_act s =
     (let s1 = eval_triggers_act s;
          VactExecute = trig_any (VactTriggered s1)
      in if VactExecute
         then (True, eval_act (s1\<lparr>VnbaTriggered :=
                                   trig_thisOr (VnbaTriggered s1) (VactTriggered s1)\<rparr>))
         else (False, s1))"

definition eval_phase_nba :: "Vregfile_root \<Rightarrow> bool \<times> Vregfile_root" where
  "eval_phase_nba s =
     (let VnbaExecute = trig_any (VnbaTriggered s)
      in if VnbaExecute
         then (True, (eval_nba s)\<lparr>VnbaTriggered := trig_clear\<rparr>)
         else (False, s))"

definition eval_phase_stl :: "Vregfile_root \<Rightarrow> bool \<times> Vregfile_root" where
  "eval_phase_stl s =
     (let s1 = eval_triggers_stl s;
          VstlExecute = trig_any (VstlTriggered s1)
      in if VstlExecute then (True, eval_stl s1) else (False, s1))"

lemma eval_phase_act_VactIterCount:
  "VactIterCount (snd (eval_phase_act s)) = VactIterCount s"
  by (simp add: eval_phase_act_def eval_triggers_act_def eval_act_def Let_def)

lemma eval_phase_act_VactContinue:
  "VactContinue (snd (eval_phase_act s)) = VactContinue s"
  by (simp add: eval_phase_act_def eval_triggers_act_def eval_act_def Let_def)

section \<open>Convergence loops\<close>

definition stl_diag :: fatal where
  "stl_diag = Fatal ''regfile.sv'' 16 '''' ''Settle region did not converge.''"

definition act_diag :: fatal where
  "act_diag = Fatal ''regfile.sv'' 16 '''' ''Active region did not converge.''"

definition nba_diag :: fatal where
  "nba_diag = Fatal ''regfile.sv'' 16 '''' ''NBA region did not converge.''"

text \<open>
  The \<^verbatim>\<open>while (__VstlContinue)\<close> loop of \<^verbatim>\<open>eval_settle\<close>, from the loop head, with its
  two locals as arguments.
\<close>

function stl_loop :: "CData \<Rightarrow> IData \<Rightarrow> Vregfile_root \<Rightarrow> fatal + Vregfile_root" where
  "stl_loop VstlContinue VstlIterCount s =
     (if VstlContinue = 0 then Inr s
      else if 0x64 < VstlIterCount then Inl stl_diag
      else (let r = eval_phase_stl s
            in stl_loop (if fst r then 1 else 0) (1 + VstlIterCount)
                 ((snd r)\<lparr>VstlFirstIteration := 0\<rparr>)))"
  by pat_completeness auto
termination
proof (relation "measure (\<lambda>(c, n, s). if c = 0 then 0 else 102 - unat n)")
  show "wf (measure (\<lambda>(c :: CData, n :: IData, s :: Vregfile_root).
          if c = 0 then 0 else 102 - unat n))"
    by simp
next
  fix VstlContinue :: CData and VstlIterCount :: IData and s :: Vregfile_root and r
  assume c: "VstlContinue \<noteq> 0" and n: "\<not> 0x64 < VstlIterCount"
  from n have "unat VstlIterCount \<le> 100"
    by (simp add: word_less_nat_alt)
  moreover from this have "unat (1 + VstlIterCount) = Suc (unat VstlIterCount)"
    by (simp add: unat_word_ariths)
  ultimately show "(((if fst r then 1 else 0), 1 + VstlIterCount,
                     (snd r)\<lparr>VstlFirstIteration := 0\<rparr>),
                    (VstlContinue, VstlIterCount, s))
                   \<in> measure (\<lambda>(c, n, s). if c = 0 then 0 else 102 - unat n)"
    using c by auto
qed

definition eval_settle :: "Vregfile_root \<Rightarrow> fatal + Vregfile_root" where
  "eval_settle s = stl_loop 1 0 (s\<lparr>VstlFirstIteration := 1\<rparr>)"

text \<open>
  The inner \<^verbatim>\<open>while (vlSelfRef.__VactContinue)\<close> loop of \<^verbatim>\<open>eval\<close>, from the loop head. Its
  flag and counter are fields of the design state.
\<close>

function act_loop :: "Vregfile_root \<Rightarrow> fatal + Vregfile_root" where
  "act_loop s =
     (if VactContinue s = 0 then Inr s
      else if 0x64 < VactIterCount s then Inl act_diag
      else (let s1 = s\<lparr>VactIterCount := 1 + VactIterCount s\<rparr>;
                s2 = s1\<lparr>VactContinue := 0\<rparr>;
                r = eval_phase_act s2
            in act_loop (if fst r then (snd r)\<lparr>VactContinue := 1\<rparr> else snd r)))"
  by pat_completeness auto
termination
proof (relation "measure (\<lambda>s. if VactContinue s = 0 then 0 else 102 - unat (VactIterCount s))")
  show "wf (measure (\<lambda>s :: Vregfile_root.
          if VactContinue s = 0 then 0 else 102 - unat (VactIterCount s)))"
    by simp
next
  fix s s1 s2 :: Vregfile_root and r
  assume c: "VactContinue s \<noteq> 0" and n: "\<not> 0x64 < VactIterCount s"
    and s1: "s1 = s\<lparr>VactIterCount := 1 + VactIterCount s\<rparr>"
    and s2: "s2 = s1\<lparr>VactContinue := 0\<rparr>"
    and r: "r = eval_phase_act s2"
  from n have le: "unat (VactIterCount s) \<le> 100"
    by (simp add: word_less_nat_alt)
  then have suc: "unat (1 + VactIterCount s) = Suc (unat (VactIterCount s))"
    by (simp add: unat_word_ariths)
  have cnt: "VactIterCount (snd r) = 1 + VactIterCount s"
    by (simp add: r s2 s1 eval_phase_act_VactIterCount)
  have cont: "VactContinue (snd r) = 0"
    by (simp add: r s2 s1 eval_phase_act_VactContinue)
  show "((if fst r then (snd r)\<lparr>VactContinue := 1\<rparr> else snd r), s)
        \<in> measure (\<lambda>s. if VactContinue s = 0 then 0 else 102 - unat (VactIterCount s))"
    using c le by (auto simp add: cnt cont suc)
qed

text \<open>The outer \<^verbatim>\<open>while (__VnbaContinue)\<close> loop of \<^verbatim>\<open>eval\<close>, from the loop head.\<close>

function nba_loop :: "CData \<Rightarrow> IData \<Rightarrow> Vregfile_root \<Rightarrow> fatal + Vregfile_root" where
  "nba_loop VnbaContinue VnbaIterCount s =
     (if VnbaContinue = 0 then Inr s
      else if 0x64 < VnbaIterCount then Inl nba_diag
      else (case act_loop (s\<lparr>VactIterCount := 0, VactContinue := 1\<rparr>) of
              Inl e \<Rightarrow> Inl e
            | Inr s1 \<Rightarrow>
                (let r = eval_phase_nba s1
                 in nba_loop (if fst r then 1 else 0) (1 + VnbaIterCount) (snd r))))"
  by pat_completeness auto
termination
proof (relation "measure (\<lambda>(c, n, s). if c = 0 then 0 else 102 - unat n)")
  show "wf (measure (\<lambda>(c :: CData, n :: IData, s :: Vregfile_root).
          if c = 0 then 0 else 102 - unat n))"
    by simp
next
  fix VnbaContinue :: CData and VnbaIterCount :: IData and s :: Vregfile_root and r
  assume c: "VnbaContinue \<noteq> 0" and n: "\<not> 0x64 < VnbaIterCount"
  from n have "unat VnbaIterCount \<le> 100"
    by (simp add: word_less_nat_alt)
  moreover from this have "unat (1 + VnbaIterCount) = Suc (unat VnbaIterCount)"
    by (simp add: unat_word_ariths)
  ultimately show "(((if fst r then 1 else 0), 1 + VnbaIterCount, snd r),
                    (VnbaContinue, VnbaIterCount, s))
                   \<in> measure (\<lambda>(c, n, s). if c = 0 then 0 else 102 - unat n)"
    using c by auto
qed

definition eval :: "Vregfile_root \<Rightarrow> fatal + Vregfile_root" where
  "eval s = nba_loop 1 0 s"

section \<open>Initialisation and the evaluation step\<close>

definition eval_static :: "Vregfile_root \<Rightarrow> Vregfile_root" where
  "eval_static s =
     s\<lparr>Vtrigprevexpr_TOP_clock_0 := clock s, Vtrigprevexpr_TOP_reset_0 := reset s\<rparr>"

definition eval_initial :: "Vregfile_root \<Rightarrow> Vregfile_root" where
  "eval_initial s = s"

text \<open>
  \<^verbatim>\<open>Vregfile::eval_step\<close> of a release build (the width assertions exist under
  \<^verbatim>\<open>VL_DEBUG\<close> only). The deleter and the end-of-evaluation hook are runtime-library
  calls that do not touch the design state.
\<close>

definition eval_step :: "Vregfile_Syms \<Rightarrow> fatal + Vregfile_Syms" where
  "eval_step y =
     (if \<not> Vm_didInit y
      then (let y1 = y\<lparr>Vm_didInit := True\<rparr>
            in case eval_settle (eval_initial (eval_static (TOP y1))) of
                 Inl e \<Rightarrow> Inl e
               | Inr t \<Rightarrow> (case eval t of Inl e \<Rightarrow> Inl e | Inr t' \<Rightarrow> Inr (y1\<lparr>TOP := t'\<rparr>)))
      else (case eval (TOP y) of Inl e \<Rightarrow> Inl e | Inr t' \<Rightarrow> Inr (y\<lparr>TOP := t'\<rparr>)))"

section \<open>Construction and the driver's operations\<close>

text \<open>
  \<^verbatim>\<open>Vregfile___024root___ctor_var_reset\<close>. The scope hash (\<^verbatim>\<open>VL_MURMUR64_HASH\<close>) and the
  reset-value generator (\<^verbatim>\<open>VL_SCOPED_RAND_RESET_I\<close>: width, scope hash, salt) are macros
  of the runtime library and are taken as parameters.
\<close>

definition ctor_var_reset ::
  "(nat \<Rightarrow> QData \<Rightarrow> QData \<Rightarrow> IData) \<Rightarrow> QData \<Rightarrow> Vregfile_root \<Rightarrow> Vregfile_root" where
  "ctor_var_reset rand_reset VscopeHash s =
     s\<lparr>clock := ucast (rand_reset 1 VscopeHash 5452235342940299466),
       reset := ucast (rand_reset 1 VscopeHash 9928399931838511862),
       val := rand_reset 32 VscopeHash 14157650751545541461,
       regfile_DOT_regs := 0,
       Vtrigprevexpr_TOP_clock_0 := ucast (rand_reset 1 VscopeHash 13272892335938733197),
       Vtrigprevexpr_TOP_reset_0 := ucast (rand_reset 1 VscopeHash 1487628987237401141)\<rparr>"

text \<open>
  Modelled from the spec: the constructor of the root module, which calls
  \<^verbatim>\<open>ctor_var_reset\<close>, is declared in the sources but defined in a file that is not part
  of them. The specification's \<^verbatim>\<open>construct\<close> allocates a fresh state container with
  implementation-defined initial values for non-register signals and zero-initialised
  registers; the symbol table starts with \<^verbatim>\<open>__Vm_didInit = false\<close>. The argument \<open>raw\<close>
  is the content of the fresh storage; the trigger vectors start cleared.
\<close>

definition construct ::
  "(nat \<Rightarrow> QData \<Rightarrow> QData \<Rightarrow> IData) \<Rightarrow> QData \<Rightarrow> Vregfile_root \<Rightarrow> Vregfile_Syms" where
  "construct rand_reset VscopeHash raw =
     \<lparr>Vm_didInit = False,
      TOP = ctor_var_reset rand_reset VscopeHash
              (raw\<lparr>VstlTriggered := trig_clear, VactTriggered := trig_clear,
                   VnbaTriggered := trig_clear\<rparr>)\<rparr>"

text \<open>
  Modelled from the spec: the driver is an external collaborator. Between evaluations it
  sets the primary inputs (\<^verbatim>\<open>setInput\<close>, an assignment to the public port) and calls
  \<^verbatim>\<open>evaluate\<close>; a fatal error ends the run.
\<close>

datatype driver_op = SetClock CData | SetReset CData | Evaluate

fun drive_op :: "driver_op \<Rightarrow> Vregfile_Syms \<Rightarrow> fatal + Vregfile_Syms" where
  "drive_op (SetClock v) y = Inr (y\<lparr>TOP := (TOP y)\<lparr>clock := v\<rparr>\<rparr>)"
| "drive_op (SetReset v) y = Inr (y\<lparr>TOP := (TOP y)\<lparr>reset := v\<rparr>\<rparr>)"
| "drive_op Evaluate y = eval_step y"

fun drive :: "driver_op list \<Rightarrow> Vregfile_Syms \<Rightarrow> fatal + Vregfile_Syms" where
  "drive [] y = Inr y"
| "drive (x # xs) y = (case drive_op x y of Inl e \<Rightarrow> Inl e | Inr y' \<Rightarrow> drive xs y')"

section \<open>Views of the register, of the output and of an evaluation\<close>

text \<open>
  The two fields the NBA block updates, located by its masks and shifts: the low field
  is register bits 0 to 31 (mask \<^verbatim>\<open>0xffffffff00000000\<close>), the 16-bit field is register
  bits 16 to 31 (mask \<^verbatim>\<open>0xffffffff0000ffff\<close>, shift by 16). The second is the upper
  half of the first; \<open>low16\<close> is the lower half, register bits 0 to 15.
\<close>

definition low_field :: "QData \<Rightarrow> 32 word" where
  "low_field r = ucast r"

definition field16 :: "QData \<Rightarrow> 16 word" where
  "field16 r = ucast (drop_bit 16 r)"

definition low16 :: "QData \<Rightarrow> 16 word" where
  "low16 r = ucast r"

text \<open>
  The 16-bit field in the specification's words: the next 16 bits after the low 32,
  register bits 32 to 47.
\<close>

definition next16 :: "QData \<Rightarrow> 16 word" where
  "next16 r = ucast (drop_bit 32 r)"

text \<open>The output as a function of the register, read off the assignments to \<^verbatim>\<open>val\<close>.\<close>

definition code_output :: "QData \<Rightarrow> IData" where
  "code_output r = ((ucast (field16 r) AND 0xe) OR (ucast (low_field r) AND 1))"

text \<open>
  The composition in the specification's words: bit 0 is the low bit of the low field,
  bits 1 to 3 are the low three bits of the 16-bit field shifted up by one, the rest is 0.
  The offset \<open>k\<close> places the 16-bit field: 16 is where the code updates it, 32 is the
  "next 16 bits" after the low 32 of the specification's text.
\<close>

definition spec_output_at :: "nat \<Rightarrow> QData \<Rightarrow> IData" where
  "spec_output_at k r =
     (push_bit 1 (ucast (ucast (drop_bit k r) :: 16 word) AND 7) OR (ucast (low_field r) AND 1))"

text \<open>
  The next register value under the non-blocking reading the specification asks for
  (all reads of old state happen before any write of new state): the new low field and
  the new 16-bit field are each computed from the register value at block entry. The
  block writes the 16-bit field last, so on the overlap (bits 16 to 31) its value stands
  and the low field contributes bits 0 to 15.
\<close>

definition nba_next :: "CData \<Rightarrow> QData \<Rightarrow> QData" where
  "nba_next rst r =
     (if rst \<noteq> 0 then 0
      else (r AND 0xffffffff00000000)
           OR push_bit 16 (ucast (field16 r + 1))
           OR ucast (ucast (low_field r + 1) :: 16 word))"

text \<open>The trigger flags an evaluation detects at its entry.\<close>

definition edge_flags :: "Vregfile_root \<Rightarrow> VlTriggerVec" where
  "edge_flags s =
     ((if rising (Vtrigprevexpr_TOP_clock_0 s) (clock s) then 1 else 0)
      OR (if rising (Vtrigprevexpr_TOP_reset_0 s) (reset s) then 2 else 0))"

text \<open>The state in which the active loop leaves a state whose flags are within range.\<close>

definition act_result :: "Vregfile_root \<Rightarrow> Vregfile_root" where
  "act_result s =
     s\<lparr>VactIterCount := (if edge_flags s = 0 then 1 else 2), VactContinue := 0,
       VactTriggered := 0, VnbaTriggered := VnbaTriggered s OR edge_flags s,
       Vtrigprevexpr_TOP_clock_0 := clock s, Vtrigprevexpr_TOP_reset_0 := reset s\<rparr>"

text \<open>
  What the scheduler itself writes during a converging evaluation: its counters, flags
  and edge snapshots, and nothing else.
\<close>

definition scheduler_done :: "Vregfile_root \<Rightarrow> Vregfile_root" where
  "scheduler_done s =
     s\<lparr>VactIterCount := 1, VactContinue := 0, VactTriggered := 0, VnbaTriggered := 0,
       Vtrigprevexpr_TOP_clock_0 := clock s, Vtrigprevexpr_TOP_reset_0 := reset s\<rparr>"

definition eval_result :: "Vregfile_root \<Rightarrow> Vregfile_root" where
  "eval_result s =
     scheduler_done
       (if 3 AND (VnbaTriggered s OR edge_flags s) \<noteq> 0 then nba_sequent_TOP_0 s else s)"

text \<open>
  The trigger vectors hold no flag. Construction leaves them so, and so does every
  evaluation that returns.
\<close>

definition flags_clear :: "Vregfile_Syms \<Rightarrow> bool" where
  "flags_clear y \<longleftrightarrow>
     VstlTriggered (TOP y) = 0 \<and> VactTriggered (TOP y) = 0 \<and> VnbaTriggered (TOP y) = 0"

text \<open>A diagnostic text can name a count only if a decimal digit occurs in it.\<close>

definition has_digit :: "string \<Rightarrow> bool" where
  "has_digit t = list_ex (\<lambda>c. c \<in> set ''0123456789'') t"

text \<open>A state with every field zero, as a base for concrete inputs.\<close>

definition blank_root :: Vregfile_root where
  "blank_root =
     \<lparr>clock = 0, reset = 0, VstlFirstIteration = 0, Vtrigprevexpr_TOP_clock_0 = 0,
      Vtrigprevexpr_TOP_reset_0 = 0, VactContinue = 0, val = 0, VactIterCount = 0,
      regfile_DOT_regs = 0, VstlTriggered = 0, VactTriggered = 0, VnbaTriggered = 0\<rparr>"

text \<open>Concrete inputs and results for the evaluation-level statements.\<close>

definition c1_input :: Vregfile_Syms where
  "c1_input = \<lparr>Vm_didInit = True,
               TOP = blank_root\<lparr>clock := 1, reset := 1,
                       regfile_DOT_regs := 0xfedcba9876543210, val := 0xf\<rparr>\<rparr>"

definition c3_input :: Vregfile_Syms where
  "c3_input = \<lparr>Vm_didInit = True,
               TOP = blank_root\<lparr>clock := 1, regfile_DOT_regs := 0xffffffff\<rparr>\<rparr>"

definition c3_next_input :: Vregfile_Syms where
  "c3_next_input = \<lparr>Vm_didInit = True,
                    TOP = blank_root\<lparr>clock := 1, regfile_DOT_regs := 0x1ffffffff\<rparr>\<rparr>"

definition c5_input :: Vregfile_Syms where
  "c5_input = \<lparr>Vm_didInit = True,
               TOP = blank_root\<lparr>clock := 1, regfile_DOT_regs := 0x2ffff\<rparr>\<rparr>"

definition c5_settled :: Vregfile_Syms where
  "c5_settled = \<lparr>Vm_didInit = True,
                 TOP = blank_root\<lparr>clock := 1, Vtrigprevexpr_TOP_clock_0 := 1,
                         VactIterCount := 1, regfile_DOT_regs := 0x30000, val := 2\<rparr>\<rparr>"




definition c9_final :: Vregfile_Syms where
  "c9_final = \<lparr>Vm_didInit = True,
               TOP = blank_root\<lparr>clock := 1, Vtrigprevexpr_TOP_clock_0 := 1,
                       VactIterCount := 1, regfile_DOT_regs := 0x10001, val := 1\<rparr>\<rparr>"

definition c4_over :: Vregfile_root where
  "c4_over = blank_root\<lparr>VactTriggered := 4, VstlTriggered := 2,
                        VactContinue := 1, VactIterCount := 101\<rparr>"

text \<open>
  The specification's scenario as driver operations: reset with a rising clock edge, then
  release reset; one tick is a falling and a rising clock edge, each followed by an
  evaluation.
\<close>

definition scenario_reset :: "driver_op list" where
  "scenario_reset = [SetReset 1, SetClock 0, Evaluate, SetClock 1, Evaluate, SetReset 0]"

definition scenario_tick :: "driver_op list" where
  "scenario_tick = [SetClock 0, Evaluate, SetClock 1, Evaluate]"

definition scenario_state :: "QData \<Rightarrow> IData \<Rightarrow> Vregfile_Syms" where
  "scenario_state r v =
     \<lparr>Vm_didInit = True,
      TOP = blank_root\<lparr>clock := 1, Vtrigprevexpr_TOP_clock_0 := 1, VactIterCount := 1,
              regfile_DOT_regs := r, val := v\<rparr>\<rparr>"

section \<open>Bit-level facts about the sequential block\<close>

lemma mask_hi32: "(0xffffffff00000000 :: QData) = NOT (mask 32)"
  by (simp add: mask_eq_exp_minus_1)

lemma mask_not_field16: "(0xffffffff0000ffff :: QData) = NOT (push_bit 16 (mask 16))"
  by (simp add: mask_eq_exp_minus_1)

lemma mask_16: "(0xffff :: IData) = mask 16"
  by (simp add: mask_eq_exp_minus_1)

lemma mask_e: "(0xe :: IData) = push_bit 1 (mask 3)"
  by (simp add: mask_eq_exp_minus_1)

lemma nba_inc_bits:
  "bit (snd (nba_inc_high (nba_inc_low (s, d)))) n \<longleftrightarrow>
     (if n < 16 then bit ((1 :: IData) + ucast (regfile_DOT_regs s)) n
      else if n < 32 then bit ((1 :: IData) + ucast (drop_bit 16 (regfile_DOT_regs s))) (n - 16)
      else bit d n)"
  unfolding nba_inc_high_def nba_inc_low_def mask_hi32 mask_not_field16 mask_16
  by (auto simp: bit_simps dest: bit_imp_le_length)

lemma nba_output_bits:
  "bit (val (nba_output s)) n \<longleftrightarrow>
     (n = 0 \<and> bit (regfile_DOT_regs s) 0)
     \<or> (1 \<le> n \<and> n \<le> 3 \<and> bit (regfile_DOT_regs s) (16 + n))"
  unfolding nba_output_def mask_e
  by (auto simp: bit_simps simp del: push_bit_Suc dest: bit_imp_le_length)

lemma stl_output_bits:
  "bit (val (stl_sequent_TOP_0 s)) n \<longleftrightarrow>
     (n = 0 \<and> bit (regfile_DOT_regs s) 0)
     \<or> (1 \<le> n \<and> n \<le> 3 \<and> bit (regfile_DOT_regs s) (16 + n))"
  unfolding stl_sequent_TOP_0_def mask_e
  by (auto simp: bit_simps simp del: push_bit_Suc dest: bit_imp_le_length)

lemma code_output_bits:
  "bit (code_output r) n \<longleftrightarrow> (n = 0 \<and> bit r 0) \<or> (1 \<le> n \<and> n \<le> 3 \<and> bit r (16 + n))"
  unfolding code_output_def field16_def low_field_def mask_e
  by (auto simp: bit_simps simp del: push_bit_Suc dest: bit_imp_le_length)

lemma take_bit_add_inner:
  fixes a b :: int
  assumes "m \<le> n"
  shows "take_bit m (take_bit n a + take_bit n b) = take_bit m (a + b)"
proof -
  have "take_bit m (take_bit n a + take_bit n b)
        = take_bit m (take_bit m (take_bit n a) + take_bit m (take_bit n b))"
    by (simp only: take_bit_add)
  also have "\<dots> = take_bit m (take_bit m a + take_bit m b)"
    using assms by (simp add: min_def)
  also have "\<dots> = take_bit m (a + b)"
    by (simp only: take_bit_add)
  finally show ?thesis .
qed

lemma ucast_IData_plus: "(ucast (a + b :: IData) :: 16 word) = ucast a + ucast b"
  by transfer (simp add: take_bit_add_inner)

lemma ucast_ucast_16: "(ucast (ucast (r :: QData) :: IData) :: 16 word) = ucast r"
  by (rule bit_word_eqI) (auto simp: bit_simps)

lemma field16_inc:
  "field16 (snd (nba_inc_high (nba_inc_low (s, d)))) = field16 (regfile_DOT_regs s) + 1"
proof -
  have "field16 (snd (nba_inc_high (nba_inc_low (s, d))))
        = ucast ((1 :: IData) + ucast (drop_bit 16 (regfile_DOT_regs s)))"
    unfolding field16_def
    by (rule bit_word_eqI) (auto simp: bit_simps nba_inc_bits dest: bit_imp_le_length)
  also have "\<dots> = field16 (regfile_DOT_regs s) + 1"
    by (simp add: ucast_IData_plus ucast_ucast_16 field16_def)
  finally show ?thesis .
qed

lemma low16_inc:
  "(ucast (snd (nba_inc_high (nba_inc_low (s, d)))) :: 16 word) = ucast (regfile_DOT_regs s) + 1"
proof -
  have "(ucast (snd (nba_inc_high (nba_inc_low (s, d)))) :: 16 word)
        = ucast ((1 :: IData) + ucast (regfile_DOT_regs s))"
    by (rule bit_word_eqI) (auto simp: bit_simps nba_inc_bits dest: bit_imp_le_length)
  also have "\<dots> = ucast (regfile_DOT_regs s) + 1"
    by (simp add: ucast_IData_plus ucast_ucast_16)
  finally show ?thesis .
qed

text \<open>What the block leaves in the register and in the output.\<close>

lemma nba_sequent_regs:
  "regfile_DOT_regs (nba_sequent_TOP_0 s) =
     (if reset s \<noteq> 0 then 0 else snd (nba_inc_high (nba_inc_low (s, regfile_DOT_regs s))))"
  by (simp add: nba_sequent_TOP_0_def nba_output_def nba_commit_def nba_branch_def
      nba_clear_def nba_load_def nba_enter_def nba_inc_high_def nba_inc_low_def)

lemma nba_sequent_val:
  "val (nba_sequent_TOP_0 s) = code_output (regfile_DOT_regs (nba_sequent_TOP_0 s))"
proof -
  have "val (nba_output t) = code_output (regfile_DOT_regs (nba_output t))" for t
  proof (rule bit_word_eqI)
    fix n
    have "regfile_DOT_regs (nba_output t) = regfile_DOT_regs t"
      by (simp add: nba_output_def)
    then show "bit (val (nba_output t)) n = bit (code_output (regfile_DOT_regs (nba_output t))) n"
      by (simp only: nba_output_bits code_output_bits)
  qed
  then show ?thesis
    by (simp only: nba_sequent_TOP_0_def)
qed

lemma nba_sequent_frame:
  "nba_sequent_TOP_0 s =
     s\<lparr>regfile_DOT_regs := regfile_DOT_regs (nba_sequent_TOP_0 s),
       val := val (nba_sequent_TOP_0 s)\<rparr>"
  by (simp add: nba_sequent_TOP_0_def nba_output_def nba_commit_def nba_branch_def
      nba_clear_def nba_load_def nba_enter_def nba_inc_high_def nba_inc_low_def)

lemma stl_sequent_val: "val (stl_sequent_TOP_0 s) = code_output (regfile_DOT_regs s)"
  by (rule bit_word_eqI) (simp only: stl_output_bits code_output_bits)

lemma code_output_0: "code_output 0 = 0"
  by (simp add: code_output_def field16_def low_field_def)

lemma stl_sequent_eq: "stl_sequent_TOP_0 s = s\<lparr>val := code_output (regfile_DOT_regs s)\<rparr>"
  using stl_sequent_val [of s] by (simp add: stl_sequent_TOP_0_def)

lemma drop_bit_4_code_output: "drop_bit 4 (code_output r) = 0"
  by (rule bit_word_eqI) (auto simp: bit_simps code_output_bits)

text \<open>The block computes the next register value of the non-blocking reading.\<close>

lemma nba_inc_eq_next:
  "snd (nba_inc_high (nba_inc_low (s, regfile_DOT_regs s))) = nba_next 0 (regfile_DOT_regs s)"
proof -
  let ?r = "regfile_DOT_regs s"
  have A: "field16 ?r + 1 = ucast ((1 :: IData) + ucast (drop_bit 16 ?r))"
    by (simp add: ucast_IData_plus ucast_ucast_16 field16_def)
  have B: "(ucast (low_field ?r + 1) :: 16 word) = ucast ((1 :: IData) + ucast ?r)"
    by (simp add: low_field_def add.commute)
  show ?thesis
    unfolding nba_next_def A B mask_hi32
    by (rule bit_word_eqI)
       (auto simp: nba_inc_bits bit_simps simp del: push_bit_Suc dest: bit_imp_le_length)
qed

lemma nba_sequent_regs_next:
  "regfile_DOT_regs (nba_sequent_TOP_0 s) = nba_next (reset s) (regfile_DOT_regs s)"
  by (simp add: nba_sequent_regs nba_inc_eq_next) (simp add: nba_next_def)

lemma nba_sequent_eq:
  "nba_sequent_TOP_0 s =
     s\<lparr>regfile_DOT_regs := nba_next (reset s) (regfile_DOT_regs s),
       val := code_output (nba_next (reset s) (regfile_DOT_regs s))\<rparr>"
  using nba_sequent_frame [of s]
  by (simp add: nba_sequent_val nba_sequent_regs_next)

section \<open>Trigger vectors\<close>

lemma drop_bit_eq_0_bit: "drop_bit k (w :: 64 word) = 0 \<Longrightarrow> k \<le> n \<Longrightarrow> \<not> bit w n"
proof
  assume z: "drop_bit k w = 0" and le: "k \<le> n" and b: "bit w n"
  have "bit (drop_bit k w) (n - k)"
    using b le by (simp add: bit_drop_bit_eq)
  with z show False by simp
qed

lemma setBit_pair:
  assumes "drop_bit 2 (w :: 64 word) = 0"
  shows "trig_setBit 1 b1 (trig_setBit 0 b0 w) = (if b0 then 1 else 0) OR (if b1 then 2 else 0)"
proof (rule bit_word_eqI)
  fix n assume "n < LENGTH(64)"
  have hi: "\<not> bit w n" if "2 \<le> n"
    using assms that by (rule drop_bit_eq_0_bit)
  show "bit (trig_setBit 1 b1 (trig_setBit 0 b0 w)) n
        = bit ((if b0 then 1 else 0) OR (if b1 then 2 else 0) :: 64 word) n"
    using hi
    by (cases "n = 0"; cases "n = 1") (auto simp: trig_setBit_def bit_simps simp del: push_bit_Suc)
qed

lemma setBit_single:
  assumes "drop_bit 1 (w :: 64 word) = 0"
  shows "trig_setBit 0 b w = (if b then 1 else 0)"
proof (rule bit_word_eqI)
  fix n assume "n < LENGTH(64)"
  have hi: "\<not> bit w n" if "1 \<le> n"
    using assms that by (rule drop_bit_eq_0_bit)
  show "bit (trig_setBit 0 b w) n = bit (if b then 1 else 0 :: 64 word) n"
    using hi
    by (cases "n = 0") (auto simp: trig_setBit_def bit_simps simp del: push_bit_Suc)
qed

lemma setBit_above: "i < n \<Longrightarrow> bit (trig_setBit i b w) n = bit w n"
  by (cases b) (auto simp: trig_setBit_def bit_simps dest: bit_imp_le_length)

lemma setBit_pair_junk:
  "drop_bit 2 (trig_setBit 1 b1 (trig_setBit 0 b0 w)) = drop_bit 2 w"
  by (rule bit_word_eqI) (simp add: bit_drop_bit_eq setBit_above)

lemma setBit_single_junk:
  "drop_bit 1 (trig_setBit 0 b w) = drop_bit 1 w"
  by (rule bit_word_eqI) (simp add: bit_drop_bit_eq setBit_above)

lemma junk_nonzero: "drop_bit k (w :: 64 word) \<noteq> 0 \<Longrightarrow> w \<noteq> 0"
  by auto

lemma rising_same: "rising x x = False"
  by (auto simp: rising_def)

lemma eval_triggers_act_flags:
  assumes "drop_bit 2 (VactTriggered s) = 0"
  shows "eval_triggers_act s =
           s\<lparr>VactTriggered := edge_flags s,
             Vtrigprevexpr_TOP_clock_0 := clock s, Vtrigprevexpr_TOP_reset_0 := reset s\<rparr>"
  unfolding eval_triggers_act_def edge_flags_def
  by (simp only: setBit_pair [OF assms])

lemma eval_triggers_stl_flags:
  assumes "drop_bit 1 (VstlTriggered s) = 0"
  shows "eval_triggers_stl s =
           s\<lparr>VstlTriggered := (if VstlFirstIteration s \<noteq> 0 then 1 else 0)\<rparr>"
  unfolding eval_triggers_stl_def
  by (simp only: setBit_single [OF assms])

section \<open>The loops, one iteration at a time\<close>

declare act_loop.simps [simp del] nba_loop.simps [simp del] stl_loop.simps [simp del]

lemma act_loop_done: "VactContinue s = 0 \<Longrightarrow> act_loop s = Inr s"
  by (subst act_loop.simps) simp

lemma act_loop_fatal:
  "VactContinue s \<noteq> 0 \<Longrightarrow> 0x64 < VactIterCount s \<Longrightarrow> act_loop s = Inl act_diag"
  by (subst act_loop.simps) simp

lemma act_loop_iter:
  "VactContinue s \<noteq> 0 \<Longrightarrow> \<not> 0x64 < VactIterCount s \<Longrightarrow>
   act_loop s =
     act_loop (let r = eval_phase_act (s\<lparr>VactIterCount := 1 + VactIterCount s, VactContinue := 0\<rparr>)
               in if fst r then (snd r)\<lparr>VactContinue := 1\<rparr> else snd r)"
  by (subst act_loop.simps) (simp add: Let_def)

lemma nba_loop_done: "nba_loop 0 n s = Inr s"
  by (subst nba_loop.simps) simp

lemma nba_loop_fatal: "c \<noteq> 0 \<Longrightarrow> 0x64 < n \<Longrightarrow> nba_loop c n s = Inl nba_diag"
  by (subst nba_loop.simps) simp

lemma nba_loop_iter:
  "c \<noteq> 0 \<Longrightarrow> \<not> 0x64 < n \<Longrightarrow>
   nba_loop c n s =
     (case act_loop (s\<lparr>VactIterCount := 0, VactContinue := 1\<rparr>) of
        Inl e \<Rightarrow> Inl e
      | Inr s1 \<Rightarrow> nba_loop (if fst (eval_phase_nba s1) then 1 else 0) (1 + n)
                    (snd (eval_phase_nba s1)))"
  by (subst nba_loop.simps) (simp add: Let_def split: sum.split)

lemma stl_loop_done: "stl_loop 0 n s = Inr s"
  by (subst stl_loop.simps) simp

lemma stl_loop_fatal: "c \<noteq> 0 \<Longrightarrow> 0x64 < n \<Longrightarrow> stl_loop c n s = Inl stl_diag"
  by (subst stl_loop.simps) simp

lemma stl_loop_iter:
  "c \<noteq> 0 \<Longrightarrow> \<not> 0x64 < n \<Longrightarrow>
   stl_loop c n s =
     stl_loop (if fst (eval_phase_stl s) then 1 else 0) (1 + n)
       ((snd (eval_phase_stl s))\<lparr>VstlFirstIteration := 0\<rparr>)"
  by (subst stl_loop.simps) (simp add: Let_def)

section \<open>What one evaluation does\<close>

text \<open>The active loop from its entry, when no flag beyond the two declared ones is set.\<close>

lemma act_loop_entry:
  assumes wf: "drop_bit 2 (VactTriggered s) = 0"
  shows "act_loop (s\<lparr>VactIterCount := 0, VactContinue := 1\<rparr>) = Inr (act_result s)"
  using wf
  by (cases "rising (Vtrigprevexpr_TOP_clock_0 s) (clock s)";
      cases "rising (Vtrigprevexpr_TOP_reset_0 s) (reset s)")
     (simp_all add: act_loop_iter eval_phase_act_def eval_triggers_act_flags trig_any_def
        Let_def act_loop_done act_result_def eval_act_def trig_thisOr_def edge_flags_def
        rising_same)

lemma eval_converges:
  assumes wf: "drop_bit 2 (VactTriggered s) = 0"
  shows "eval s = Inr (eval_result s)"
proof (cases "VnbaTriggered s OR edge_flags s = 0")
  case True
  then have z: "VnbaTriggered s = 0" "edge_flags s = 0"
    by (simp_all add: or_eq_0_iff)
  show ?thesis
    using z
    by (simp add: eval_def nba_loop_iter act_loop_entry [OF wf] act_result_def
        eval_phase_nba_def trig_any_def Let_def nba_loop_done eval_result_def
        scheduler_done_def)
next
  case False
  let ?t = "act_result s"
  have nz: "VnbaTriggered ?t \<noteq> 0"
    using False by (simp add: act_result_def)
  have p1: "eval_phase_nba ?t = (True, (eval_nba ?t)\<lparr>VnbaTriggered := 0\<rparr>)"
    using nz by (simp add: eval_phase_nba_def trig_any_def trig_clear_def)
  let ?u = "(eval_nba ?t)\<lparr>VnbaTriggered := 0\<rparr>"
  have wfu: "drop_bit 2 (VactTriggered ?u) = 0"
    by (simp add: eval_nba_def nba_sequent_eq act_result_def)
  have it1: "eval s = nba_loop 1 1 ?u"
    by (simp add: eval_def nba_loop_iter act_loop_entry [OF wf] p1)
  have it2: "nba_loop 1 1 ?u = Inr (act_result ?u)"
    by (simp add: nba_loop_iter act_loop_entry [OF wfu] eval_phase_nba_def trig_any_def
        nba_loop_done)
       (simp add: act_result_def eval_nba_def nba_sequent_eq edge_flags_def rising_same)
  show ?thesis
    unfolding it1 it2
    by (simp add: act_result_def eval_nba_def nba_sequent_eq edge_flags_def rising_same
        eval_result_def trig_word_def scheduler_done_def)
qed

lemma eval_settle_converges:
  assumes wf: "drop_bit 1 (VstlTriggered s) = 0"
  shows "eval_settle s =
           Inr (s\<lparr>val := code_output (regfile_DOT_regs s),
                  VstlFirstIteration := 0, VstlTriggered := 0\<rparr>)"
  using wf
  by (simp add: eval_settle_def stl_loop_iter eval_phase_stl_def eval_triggers_stl_flags
      trig_any_def Let_def eval_stl_def trig_word_def stl_loop_done stl_sequent_eq)

text \<open>
  A flag beyond the declared ones is never cleared, so the region reports activity in
  every iteration and the loop runs into its cap.
\<close>

lemma eval_phase_act_junk:
  assumes "drop_bit 2 (VactTriggered s) \<noteq> 0"
  shows "fst (eval_phase_act s)" and "drop_bit 2 (VactTriggered (snd (eval_phase_act s))) \<noteq> 0"
proof -
  have j: "drop_bit 2 (VactTriggered (eval_triggers_act s)) \<noteq> 0"
    using assms by (simp add: eval_triggers_act_def setBit_pair_junk del: One_nat_def)
  then have nz: "VactTriggered (eval_triggers_act s) \<noteq> 0"
    by (rule junk_nonzero)
  from nz show "fst (eval_phase_act s)"
    by (simp add: eval_phase_act_def trig_any_def Let_def)
  from nz j show "drop_bit 2 (VactTriggered (snd (eval_phase_act s))) \<noteq> 0"
    by (simp add: eval_phase_act_def trig_any_def Let_def eval_act_def)
qed

lemma act_stuck:
  "drop_bit 2 (VactTriggered s) \<noteq> 0 \<Longrightarrow> VactContinue s \<noteq> 0 \<Longrightarrow> act_loop s = Inl act_diag"
proof (induction s rule: act_loop.induct)
  case (1 s)
  show ?case
  proof (cases "0x64 < VactIterCount s")
    case True
    with "1.prems" show ?thesis by (simp add: act_loop_fatal)
  next
    case False
    let ?s2 = "s\<lparr>VactIterCount := 1 + VactIterCount s, VactContinue := 0\<rparr>"
    have j: "drop_bit 2 (VactTriggered ?s2) \<noteq> 0"
      using "1.prems" by simp
    note f = eval_phase_act_junk [OF j]
    let ?s3 = "(snd (eval_phase_act ?s2))\<lparr>VactContinue := 1\<rparr>"
    have "act_loop ?s3 = Inl act_diag"
      using "1.IH" [OF _ False refl refl refl] "1.prems" f by simp
    then show ?thesis
      using "1.prems" False f by (simp add: act_loop_iter Let_def)
  qed
qed

lemma eval_diverges:
  assumes "drop_bit 2 (VactTriggered s) \<noteq> 0"
  shows "eval s = Inl act_diag"
proof -
  have "act_loop (s\<lparr>VactIterCount := 0, VactContinue := 1\<rparr>) = Inl act_diag"
    using assms by (simp add: act_stuck)
  then show ?thesis
    by (simp add: eval_def nba_loop_iter)
qed

lemma eval_phase_stl_junk:
  assumes "drop_bit 1 (VstlTriggered s) \<noteq> 0"
  shows "fst (eval_phase_stl s)"
    and "drop_bit 1 (VstlTriggered (snd (eval_phase_stl s))) \<noteq> 0"
proof -
  have j: "drop_bit 1 (VstlTriggered (eval_triggers_stl s)) \<noteq> 0"
    using assms by (simp add: eval_triggers_stl_def setBit_single_junk del: One_nat_def)
  then have nz: "VstlTriggered (eval_triggers_stl s) \<noteq> 0"
    by (rule junk_nonzero)
  from nz show "fst (eval_phase_stl s)"
    by (simp add: eval_phase_stl_def trig_any_def Let_def)
  from nz j show "drop_bit 1 (VstlTriggered (snd (eval_phase_stl s))) \<noteq> 0"
    by (simp add: eval_phase_stl_def trig_any_def Let_def eval_stl_def stl_sequent_TOP_0_def)
qed

lemma stl_stuck:
  "drop_bit 1 (VstlTriggered s) \<noteq> 0 \<Longrightarrow> c \<noteq> 0 \<Longrightarrow> stl_loop c n s = Inl stl_diag"
proof (induction c n s rule: stl_loop.induct)
  case (1 c n s)
  show ?case
  proof (cases "0x64 < n")
    case True
    with "1.prems" show ?thesis by (simp add: stl_loop_fatal)
  next
    case False
    note f = eval_phase_stl_junk [OF "1.prems"(1)]
    have "stl_loop 1 (1 + n) ((snd (eval_phase_stl s))\<lparr>VstlFirstIteration := 0\<rparr>) = Inl stl_diag"
      using "1.IH" [OF "1.prems"(2) False refl] f by simp
    then show ?thesis
      using "1.prems" False f by (simp add: stl_loop_iter)
  qed
qed

lemma eval_settle_diverges:
  assumes "drop_bit 1 (VstlTriggered s) \<noteq> 0"
  shows "eval_settle s = Inl stl_diag"
  using assms by (simp add: eval_settle_def stl_stuck)

lemma eval_settle_val:
  assumes "eval_settle s = Inr s'"
  shows "val s' = code_output (regfile_DOT_regs s')"
proof (cases "drop_bit 1 (VstlTriggered s) = 0")
  case True
  from eval_settle_converges [OF True] assms show ?thesis by auto
next
  case False
  from eval_settle_diverges [OF False] assms show ?thesis by simp
qed

lemma code_output_field_bits:
  "bit (code_output r) n \<longleftrightarrow>
     (n = 0 \<and> bit (low_field r) 0) \<or> (1 \<le> n \<and> n \<le> 3 \<and> bit (field16 r) n)"
  by (auto simp: code_output_bits field16_def low_field_def bit_simps)

section \<open>The next register value\<close>

lemma field16_nba_next: "field16 (nba_next 0 r) = field16 r + 1"
proof -
  let ?s = "blank_root\<lparr>regfile_DOT_regs := r\<rparr>"
  have "nba_next 0 r = snd (nba_inc_high (nba_inc_low (?s, regfile_DOT_regs ?s)))"
    using nba_inc_eq_next [of ?s] by simp
  then show ?thesis
    by (simp add: field16_inc)
qed

lemma low_field_nba_next:
  "low_field (nba_next 0 r)
   = (push_bit 16 (ucast (field16 r + 1)) OR ucast (ucast (low_field r + 1) :: 16 word))"
  unfolding nba_next_def low_field_def mask_hi32
  by (rule bit_word_eqI)
     (auto simp: bit_simps simp del: push_bit_Suc dest: bit_imp_le_length)

lemma field16_of_low_field: "field16 r = ucast (drop_bit 16 (low_field r))"
  unfolding field16_def low_field_def
  by (rule bit_word_eqI) (auto simp: bit_simps dest: bit_imp_le_length)

lemma low_field_wraps:
  assumes "low_field r = 0xFFFFFFFF"
  shows "low_field (nba_next 0 r) = 0"
proof -
  have "field16 r = 0xFFFF"
    by (simp add: field16_of_low_field assms)
  then show ?thesis
    by (simp add: low_field_nba_next assms)
qed

lemma upper_nba_next: "drop_bit 32 (nba_next rst r) = (if rst \<noteq> 0 then 0 else drop_bit 32 r)"
  unfolding nba_next_def mask_hi32
  by (rule bit_word_eqI)
     (auto simp: bit_simps simp del: push_bit_Suc dest: bit_imp_le_length)

lemma low16_nba_next: "low16 (nba_next 0 r) = low16 r + 1"
proof -
  let ?s = "blank_root\<lparr>regfile_DOT_regs := r\<rparr>"
  have "nba_next 0 r = snd (nba_inc_high (nba_inc_low (?s, regfile_DOT_regs ?s)))"
    using nba_inc_eq_next [of ?s] by simp
  then show ?thesis
    by (simp add: low16_inc low16_def)
qed

lemma next16_nba_next: "next16 (nba_next 0 r) = next16 r"
  by (simp add: next16_def upper_nba_next)

lemma low_field_halves:
  "low_field r = (push_bit 16 (ucast (field16 r)) OR ucast (low16 r))"
  unfolding low_field_def field16_def low16_def
  by (rule bit_word_eqI) (auto simp: bit_simps simp del: push_bit_Suc dest: bit_imp_le_length)

lemma unat_field16_succ: "unat (x + 1 :: 16 word) = (unat x + 1) mod 0x10000"
  by (simp add: unat_word_ariths)

lemma nba_inc_low_reads_register:
  "low_field (snd (nba_inc_low f)) = low_field (regfile_DOT_regs (fst f)) + 1"
  unfolding nba_inc_low_def low_field_def mask_hi32
  by (rule bit_word_eqI) (auto simp: bit_simps add.commute dest: bit_imp_le_length)

lemma nba_inc_high_reads_register:
  "field16 (snd (nba_inc_high f)) = field16 (regfile_DOT_regs (fst f)) + 1"
proof -
  have "field16 (snd (nba_inc_high f))
        = ucast ((1 :: IData) + ucast (drop_bit 16 (regfile_DOT_regs (fst f))))"
    unfolding nba_inc_high_def field16_def mask_not_field16 mask_16
    by (rule bit_word_eqI) (auto simp: bit_simps simp del: push_bit_Suc dest: bit_imp_le_length)
  also have "\<dots> = field16 (regfile_DOT_regs (fst f)) + 1"
    by (simp add: ucast_IData_plus ucast_ucast_16 field16_def)
  finally show ?thesis .
qed

lemma nba_shadow_next:
  "snd (nba_branch (nba_load (nba_enter s))) = nba_next (reset s) (regfile_DOT_regs s)"
  using nba_inc_eq_next [of s]
  by (simp add: nba_branch_def nba_load_def nba_enter_def nba_clear_def)
     (simp add: nba_next_def nba_inc_high_def nba_inc_low_def)


section \<open>The evaluation step\<close>

lemma eval_step_running:
  assumes "Vm_didInit y" and "drop_bit 2 (VactTriggered (TOP y)) = 0"
  shows "eval_step y = Inr (y\<lparr>TOP := eval_result (TOP y)\<rparr>)"
  using assms by (simp add: eval_step_def eval_converges)

lemma and3_or_1: "(3 :: 64 word) AND (w OR 1) \<noteq> 0"
proof
  assume "3 AND (w OR 1) = 0"
  then have "\<not> bit ((3 :: 64 word) AND (w OR 1)) 0" by simp
  then show False by (simp add: bit_simps)
qed

lemma and3_or_2: "(3 :: 64 word) AND (w OR 2) \<noteq> 0"
proof
  assume "3 AND (w OR 2) = 0"
  then have "\<not> bit ((3 :: 64 word) AND (w OR 2)) 1" by simp
  then show False by (simp add: bit_simps)
qed

lemma and3_or_3: "(3 :: 64 word) AND (w OR 3) \<noteq> 0"
proof
  assume "3 AND (w OR 3) = 0"
  then have "\<not> bit ((3 :: 64 word) AND (w OR 3)) 0" by simp
  then show False by (simp add: bit_simps)
qed

lemma edge_flags_nonzero:
  "rising (Vtrigprevexpr_TOP_clock_0 s) (clock s) \<or> rising (Vtrigprevexpr_TOP_reset_0 s) (reset s)
   \<Longrightarrow> 3 AND (w OR edge_flags s) \<noteq> 0"
  using and3_or_1 [of w] and3_or_2 [of w] and3_or_3 [of w]
  by (auto simp: edge_flags_def)

lemma eval_result_edge:
  assumes "rising (Vtrigprevexpr_TOP_clock_0 s) (clock s)
           \<or> rising (Vtrigprevexpr_TOP_reset_0 s) (reset s)"
  shows "eval_result s = scheduler_done (nba_sequent_TOP_0 s)"
  using edge_flags_nonzero [OF assms] by (simp add: eval_result_def)


lemma scheduler_done_regs [simp]: "regfile_DOT_regs (scheduler_done s) = regfile_DOT_regs s"
  by (simp add: scheduler_done_def)

lemma scheduler_done_val [simp]: "val (scheduler_done s) = val s"
  by (simp add: scheduler_done_def)


section \<open>Results of evaluations and of driver runs\<close>

lemma eval_Inr:
  assumes "eval s = Inr t"
  shows "drop_bit 2 (VactTriggered s) = 0" and "t = eval_result s"
proof -
  show wf: "drop_bit 2 (VactTriggered s) = 0"
  proof (rule ccontr)
    assume "drop_bit 2 (VactTriggered s) \<noteq> 0"
    from eval_diverges [OF this] assms show False by simp
  qed
  from eval_converges [OF wf] assms show "t = eval_result s" by simp
qed

lemma eval_settle_Inr:
  assumes "eval_settle s = Inr t"
  shows "t = s\<lparr>val := code_output (regfile_DOT_regs s),
               VstlFirstIteration := 0, VstlTriggered := 0\<rparr>"
proof (cases "drop_bit 1 (VstlTriggered s) = 0")
  case True
  from eval_settle_converges [OF True] assms show ?thesis by simp
next
  case False
  from eval_settle_diverges [OF False] assms show ?thesis by simp
qed

lemma eval_result_quiescent:
  "VactTriggered (eval_result s) = 0" "VnbaTriggered (eval_result s) = 0"
  "Vtrigprevexpr_TOP_clock_0 (eval_result s) = clock (eval_result s)"
  "Vtrigprevexpr_TOP_reset_0 (eval_result s) = reset (eval_result s)"
  by (simp_all add: eval_result_def scheduler_done_def nba_sequent_eq)

lemma scheduler_done_idem: "scheduler_done (scheduler_done s) = scheduler_done s"
  by (simp add: scheduler_done_def)

lemma eval_result_fixed: "eval_result (eval_result s) = eval_result s"
proof -
  let ?t = "eval_result s"
  have "edge_flags ?t = 0"
    by (simp add: edge_flags_def eval_result_quiescent rising_same)
  then have "eval_result ?t = scheduler_done ?t"
    by (simp add: eval_result_def [of ?t] eval_result_quiescent)
  also have "\<dots> = ?t"
    by (simp add: eval_result_def [of s] scheduler_done_idem)
  finally show ?thesis .
qed

lemma eval_fixed:
  assumes "eval s = Inr t"
  shows "eval t = Inr t"
proof -
  from eval_Inr [OF assms] have t: "t = eval_result s" by simp
  have "drop_bit 2 (VactTriggered t) = 0"
    by (simp add: t eval_result_quiescent)
  from eval_converges [OF this] show ?thesis
    by (simp add: t eval_result_fixed)
qed

lemma eval_step_Inr:
  assumes "eval_step y = Inr y1"
  shows "Vm_didInit y1" and "\<exists>t. eval t = Inr (TOP y1)"
  using assms
  by (auto simp: eval_step_def Let_def split: if_splits sum.splits)

lemma c5_first: "eval_step c5_input = Inr c5_settled"
  by (simp add: eval_step_running c5_input_def c5_settled_def blank_root_def eval_result_def
      edge_flags_def rising_def scheduler_done_def nba_sequent_eq nba_next_def code_output_def
      field16_def low_field_def)


lemma eval_result_upper:
  assumes "drop_bit 32 (regfile_DOT_regs s) = 0"
  shows "drop_bit 32 (regfile_DOT_regs (eval_result s)) = 0"
  using assms by (simp add: eval_result_def nba_sequent_regs_next upper_nba_next)

lemma eval_upper:
  assumes "eval s = Inr t" and "drop_bit 32 (regfile_DOT_regs s) = 0"
  shows "drop_bit 32 (regfile_DOT_regs t) = 0"
  using eval_Inr(2) [OF assms(1)] eval_result_upper [OF assms(2)] by simp

lemma eval_settle_regs:
  assumes "eval_settle s = Inr t"
  shows "regfile_DOT_regs t = regfile_DOT_regs s"
  using eval_settle_Inr [OF assms] by simp

lemma eval_step_upper:
  assumes "eval_step y = Inr y'" and "drop_bit 32 (regfile_DOT_regs (TOP y)) = 0"
  shows "drop_bit 32 (regfile_DOT_regs (TOP y')) = 0"
proof (cases "Vm_didInit y")
  case True
  with assms(1) obtain t where "eval (TOP y) = Inr t" and "y' = y\<lparr>TOP := t\<rparr>"
    by (auto simp: eval_step_def split: sum.splits)
  with eval_upper [OF _ assms(2)] show ?thesis by simp
next
  case False
  with assms(1) obtain t0 t where s: "eval_settle (eval_initial (eval_static (TOP y))) = Inr t0"
    and e: "eval t0 = Inr t" and y': "y' = y\<lparr>Vm_didInit := True, TOP := t\<rparr>"
    by (auto simp: eval_step_def Let_def split: sum.splits)
  have "regfile_DOT_regs t0 = regfile_DOT_regs (TOP y)"
    using eval_settle_regs [OF s] by (simp add: eval_initial_def eval_static_def)
  with assms(2) have "drop_bit 32 (regfile_DOT_regs t0) = 0" by simp
  from eval_upper [OF e this] y' show ?thesis by simp
qed

lemma drive_op_upper:
  assumes "drive_op x y = Inr y'" and "drop_bit 32 (regfile_DOT_regs (TOP y)) = 0"
  shows "drop_bit 32 (regfile_DOT_regs (TOP y')) = 0"
  using assms by (cases x) (auto dest: eval_step_upper)

lemma drive_upper:
  "drive xs y = Inr y' \<Longrightarrow> drop_bit 32 (regfile_DOT_regs (TOP y)) = 0
   \<Longrightarrow> drop_bit 32 (regfile_DOT_regs (TOP y')) = 0"
proof (induction xs arbitrary: y)
  case Nil
  then show ?case by simp
next
  case (Cons x xs)
  from Cons.prems(1) obtain y1 where x: "drive_op x y = Inr y1" and r: "drive xs y1 = Inr y'"
    by (auto split: sum.splits)
  from drive_op_upper [OF x Cons.prems(2)] Cons.IH [OF r] show ?case by simp
qed

lemma c9_run:
  "drive [Evaluate, SetClock 1, Evaluate] (construct (\<lambda>w h salt. 0) 0 blank_root) = Inr c9_final"
proof -
  let ?y0 = "construct (\<lambda>w h salt. 0) 0 blank_root"
  let ?y1 = "\<lparr>Vm_didInit = True, TOP = blank_root\<lparr>VactIterCount := 1\<rparr>\<rparr>"
  have s1: "eval_step ?y0 = Inr ?y1"
    by (simp add: eval_step_def construct_def ctor_var_reset_def blank_root_def trig_clear_def
        eval_static_def eval_initial_def eval_settle_converges eval_converges eval_result_def
        edge_flags_def rising_def scheduler_done_def code_output_def field16_def low_field_def)
  let ?y2 = "\<lparr>Vm_didInit = True, TOP = blank_root\<lparr>VactIterCount := 1, clock := 1\<rparr>\<rparr>"
  have s2: "eval_step ?y2 = Inr c9_final"
    by (simp add: eval_step_running c9_final_def blank_root_def eval_result_def
      edge_flags_def rising_def scheduler_done_def nba_sequent_eq nba_next_def code_output_def
      field16_def low_field_def)
  show ?thesis
    by (simp add: s1) (simp add: s2)
qed

lemma no_digits:
  "\<not> has_digit (fatal_msg stl_diag)" "\<not> has_digit (fatal_msg act_diag)"
  "\<not> has_digit (fatal_msg nba_diag)"
  "\<not> has_digit (fatal_file stl_diag)" "\<not> has_digit (fatal_file act_diag)"
  "\<not> has_digit (fatal_file nba_diag)"
  "\<not> has_digit (fatal_hier stl_diag)" "\<not> has_digit (fatal_hier act_diag)"
  "\<not> has_digit (fatal_hier nba_diag)"
  by (simp_all add: has_digit_def stl_diag_def act_diag_def nba_diag_def)

text \<open>A driver run from a constructed model never aborts.\<close>

lemma eval_result_stl [simp]: "VstlTriggered (eval_result s) = VstlTriggered s"
  by (simp add: eval_result_def scheduler_done_def nba_sequent_eq)

lemma eval_step_flags_clear:
  assumes "flags_clear y"
  shows "\<exists>y'. eval_step y = Inr y' \<and> flags_clear y'"
proof (cases "Vm_didInit y")
  case True
  with assms show ?thesis
    by (simp add: eval_step_running flags_clear_def eval_result_quiescent)
next
  case False
  let ?t = "(TOP y)\<lparr>Vtrigprevexpr_TOP_clock_0 := clock (TOP y),
                    Vtrigprevexpr_TOP_reset_0 := reset (TOP y),
                    val := code_output (regfile_DOT_regs (TOP y)),
                    VstlFirstIteration := 0, VstlTriggered := 0\<rparr>"
  have s: "eval_settle (eval_initial (eval_static (TOP y))) = Inr ?t"
    using assms
    by (simp add: eval_settle_converges eval_initial_def eval_static_def flags_clear_def)
  have e: "eval ?t = Inr (eval_result ?t)"
    using assms by (simp add: eval_converges flags_clear_def)
  show ?thesis
    using False s e by (simp add: eval_step_def flags_clear_def eval_result_quiescent)
qed

lemma drive_op_flags_clear:
  assumes "flags_clear y"
  shows "\<exists>y'. drive_op x y = Inr y' \<and> flags_clear y'"
  using assms eval_step_flags_clear [OF assms]
  by (cases x) (simp_all add: flags_clear_def)

lemma drive_flags_clear:
  "flags_clear y \<Longrightarrow> \<exists>y'. drive xs y = Inr y' \<and> flags_clear y'"
proof (induction xs arbitrary: y)
  case Nil
  then show ?case by simp
next
  case (Cons x xs)
  from drive_op_flags_clear [OF Cons.prems] obtain y1
    where x: "drive_op x y = Inr y1" and c: "flags_clear y1" by blast
  from Cons.IH [OF c] x show ?case by simp
qed

lemma construct_flags_clear: "flags_clear (construct rand_reset VscopeHash raw)"
  by (simp add: flags_clear_def construct_def ctor_var_reset_def trig_clear_def)

lemma drive_converges:
  "\<exists>y. drive ops (construct rand_reset VscopeHash raw) = Inr y \<and> flags_clear y"
  by (rule drive_flags_clear) (rule construct_flags_clear)

section \<open>The specification's scenario\<close>

text \<open>
  Construct, set reset = 1 and clock = 0, evaluate, raise the clock and evaluate: the
  register and the output are 0. Release reset and tick three times: the register goes
  through \<open>0x10001\<close>, \<open>0x20002\<close>, \<open>0x30003\<close> and the output through 1, 2, 3, so
  output bit 0 cycles 1, 0, 1. The construction's reset values are taken as all ones to
  show that they do not matter.
\<close>

lemmas run_simps = eval_step_def eval_static_def eval_initial_def eval_settle_converges
  eval_converges eval_result_def edge_flags_def rising_def scheduler_done_def nba_sequent_eq
  nba_next_def code_output_def field16_def low_field_def blank_root_def

lemma scenario_after_reset:
  "drive scenario_reset (construct (\<lambda>w h salt. 0xffffffff) 0 blank_root)
   = Inr ((scenario_state 0 0)
            \<lparr>TOP := (TOP (scenario_state 0 0))\<lparr>Vtrigprevexpr_TOP_reset_0 := 1\<rparr>\<rparr>)"
  by (simp add: scenario_reset_def scenario_state_def construct_def ctor_var_reset_def
      trig_clear_def run_simps)

lemma scenario_tick_1:
  "drive scenario_tick
     ((scenario_state 0 0)
        \<lparr>TOP := (TOP (scenario_state 0 0))\<lparr>Vtrigprevexpr_TOP_reset_0 := 1\<rparr>\<rparr>)
   = Inr (scenario_state 0x10001 1)"
  by (simp add: scenario_tick_def scenario_state_def run_simps)

lemma scenario_tick_2:
  "drive scenario_tick (scenario_state 0x10001 1) = Inr (scenario_state 0x20002 2)"
  by (simp add: scenario_tick_def scenario_state_def run_simps)

lemma scenario_tick_3:
  "drive scenario_tick (scenario_state 0x20002 2) = Inr (scenario_state 0x30003 3)"
  by (simp add: scenario_tick_def scenario_state_def run_simps)

section \<open>The output composition\<close>

text \<open>
  C2, as stated, fails. The claim composes the output as: bit 0 = the low bit of the low
  field, bits 1 to 3 = the low three bits of the 16-bit field shifted up by one, bits 4
  to 31 = 0 (\<open>spec_output_at\<close>). With register bits 16 and 32 set and nothing else, the
  16-bit field is 1 wherever it is placed, so that composition is 2, but the settle
  block assigns 0; the NBA block started from \<open>0x10000ffff\<close> with reset low leaves
  that register value and assigns 0 as well.
\<close>

theorem C2_output_composition_counterexample:
  "val (stl_sequent_TOP_0 (blank_root\<lparr>regfile_DOT_regs := 0x100010000\<rparr>)) = 0
   \<and> spec_output_at 16 (regfile_DOT_regs
         (stl_sequent_TOP_0 (blank_root\<lparr>regfile_DOT_regs := 0x100010000\<rparr>))) = 2
   \<and> spec_output_at 32 (regfile_DOT_regs
         (stl_sequent_TOP_0 (blank_root\<lparr>regfile_DOT_regs := 0x100010000\<rparr>))) = 2
   \<and> regfile_DOT_regs (nba_sequent_TOP_0 (blank_root\<lparr>regfile_DOT_regs := 0x10000ffff\<rparr>))
       = 0x100010000
   \<and> val (nba_sequent_TOP_0 (blank_root\<lparr>regfile_DOT_regs := 0x10000ffff\<rparr>)) = 0
   \<and> spec_output_at 16 (regfile_DOT_regs
         (nba_sequent_TOP_0 (blank_root\<lparr>regfile_DOT_regs := 0x10000ffff\<rparr>))) = 2
   \<and> spec_output_at 32 (regfile_DOT_regs
         (nba_sequent_TOP_0 (blank_root\<lparr>regfile_DOT_regs := 0x10000ffff\<rparr>))) = 2"
  by (simp add: stl_sequent_TOP_0_def blank_root_def spec_output_at_def low_field_def
      nba_sequent_TOP_0_def nba_output_def nba_commit_def nba_branch_def
      nba_clear_def nba_load_def nba_enter_def nba_inc_high_def nba_inc_low_def)

text \<open>
  C2, amended: after every execution of the NBA block, of the settle block and after
  the settle phase, for every register value, the output is \<open>code_output\<close> of the
  register: bit 0 is the low bit of the low field, bits 1 to 3 are bits 1 to 3 of the
  16-bit field in place (register bits 17 to 19; the field's bit 0 does not reach the
  output), and bits 4 to 31 are 0.
\<close>

theorem C2_output_composition:
  "val (nba_sequent_TOP_0 s) = code_output (regfile_DOT_regs (nba_sequent_TOP_0 s))
   \<and> val (stl_sequent_TOP_0 s) = code_output (regfile_DOT_regs (stl_sequent_TOP_0 s))
   \<and> (\<forall>s'. eval_settle s = Inr s' \<longrightarrow> val s' = code_output (regfile_DOT_regs s'))
   \<and> (\<forall>r n. bit (code_output r) n \<longleftrightarrow>
          (n = 0 \<and> bit (low_field r) 0) \<or> (1 \<le> n \<and> n \<le> 3 \<and> bit (field16 r) n))
   \<and> (\<forall>r. drop_bit 4 (code_output r) = 0)"
  by (simp add: nba_sequent_val stl_sequent_eq eval_settle_val code_output_field_bits
      drop_bit_4_code_output)

theorem C2_output_composition_witness:
  "eval_settle (blank_root\<lparr>regfile_DOT_regs := 0x20001, val := 0xffffffff\<rparr>)
     = Inr (blank_root\<lparr>regfile_DOT_regs := 0x20001, val := 3\<rparr>)
   \<and> val (blank_root\<lparr>regfile_DOT_regs := 0x20001, val := 3\<rparr>)
     = code_output (regfile_DOT_regs (blank_root\<lparr>regfile_DOT_regs := 0x20001, val := 3\<rparr>))"
proof -
  have e: "eval_settle (blank_root\<lparr>regfile_DOT_regs := 0x20001, val := 0xffffffff\<rparr>)
           = Inr (blank_root\<lparr>regfile_DOT_regs := 0x20001, val := 3\<rparr>)"
    by (simp add: eval_settle_converges blank_root_def code_output_def field16_def low_field_def)
  from C2_output_composition [of "blank_root\<lparr>regfile_DOT_regs := 0x20001, val := 0xffffffff\<rparr>"]
  have "\<forall>s'. eval_settle (blank_root\<lparr>regfile_DOT_regs := 0x20001, val := 0xffffffff\<rparr>) = Inr s'
          \<longrightarrow> val s' = code_output (regfile_DOT_regs s')"
    by blast
  with e show ?thesis by blast
qed

text \<open>
  C10: the settle block and the final assignment of the NBA block compute the same
  function of the register. For every 64-bit register value \<open>r\<close>, whatever the rest of
  the two states, the output the settle block assigns equals the output the NBA block's
  last statement assigns.
\<close>

theorem C10_settle_nba_same_output:
  "val (stl_sequent_TOP_0 (s\<lparr>regfile_DOT_regs := r\<rparr>))
   = val (nba_output (t\<lparr>regfile_DOT_regs := r\<rparr>))"
  by (rule bit_word_eqI) (simp only: stl_output_bits nba_output_bits, simp)

section \<open>The reset update\<close>

text \<open>
  C6, as stated, fails. The claim has the reset update clear exactly the low 32 bits and
  the next 16 bits and leave bits 48 to 63 unchanged for every initial register value.
  With reset asserted and only register bit 63 set, the block leaves bits 48 to 63 zero:
  they changed.
\<close>

theorem C6_reset_keeps_upper_bits_counterexample:
  "reset (blank_root\<lparr>reset := 1, regfile_DOT_regs := 0x8000000000000000\<rparr>) \<noteq> 0
   \<and> drop_bit 48 (regfile_DOT_regs
         (nba_sequent_TOP_0 (blank_root\<lparr>reset := 1, regfile_DOT_regs := 0x8000000000000000\<rparr>)))
       \<noteq> drop_bit 48 (regfile_DOT_regs
           (blank_root\<lparr>reset := 1, regfile_DOT_regs := 0x8000000000000000\<rparr>))"
  by (simp add: nba_sequent_regs blank_root_def)

text \<open>
  C6, amended: when reset is asserted, the block writes zero to the whole 64-bit register,
  bits 48 to 63 included, for every initial register value; it writes the output, which
  becomes 0, and no other field of the state.
\<close>

theorem C6_reset_clears_whole_register:
  assumes "reset s \<noteq> 0"
  shows "nba_sequent_TOP_0 s = s\<lparr>regfile_DOT_regs := 0, val := 0\<rparr>"
  using assms by (simp add: nba_sequent_eq nba_next_def code_output_0)

theorem C6_reset_clears_whole_register_witness:
  "reset (blank_root\<lparr>reset := 1, regfile_DOT_regs := 0xffff000000000000\<rparr>) \<noteq> 0
   \<and> regfile_DOT_regs
        (nba_sequent_TOP_0 (blank_root\<lparr>reset := 1, regfile_DOT_regs := 0xffff000000000000\<rparr>)) = 0"
proof -
  have h: "reset (blank_root\<lparr>reset := 1, regfile_DOT_regs := 0xffff000000000000\<rparr>) \<noteq> 0"
    by (simp add: blank_root_def)
  show ?thesis
    using h C6_reset_clears_whole_register [OF h] by simp
qed

section \<open>Non-blocking assignment\<close>

text \<open>
  C7: within one execution of the NBA block, no statement before the commit writes the
  design state, so every read of the register sees its value at block entry; each field
  update computes its field from the register, whatever the shadow variable holds at
  that point (it does not observe the other field's update); the shadow ends as the
  next-state value computed from the entry value alone, and the register receives it in
  the single write at the end of the block.
\<close>

theorem C7_nba_reads_entry_state:
  "(\<forall>f. fst (nba_load f) = fst f \<and> fst (nba_clear f) = fst f \<and> fst (nba_inc_low f) = fst f
        \<and> fst (nba_inc_high f) = fst f \<and> fst (nba_branch f) = fst f)
   \<and> (\<forall>f. low_field (snd (nba_inc_low f)) = low_field (regfile_DOT_regs (fst f)) + 1
        \<and> field16 (snd (nba_inc_high f)) = field16 (regfile_DOT_regs (fst f)) + 1)
   \<and> snd (nba_branch (nba_load (nba_enter s))) = nba_next (reset s) (regfile_DOT_regs s)
   \<and> nba_commit (nba_branch (nba_load (nba_enter s)))
       = s\<lparr>regfile_DOT_regs := nba_next (reset s) (regfile_DOT_regs s)\<rparr>
   \<and> regfile_DOT_regs (nba_sequent_TOP_0 s) = nba_next (reset s) (regfile_DOT_regs s)"
proof -
  have frame: "fst (nba_load f) = fst f \<and> fst (nba_clear f) = fst f \<and> fst (nba_inc_low f) = fst f
        \<and> fst (nba_inc_high f) = fst f \<and> fst (nba_branch f) = fst f" for f
    by (simp add: nba_load_def nba_clear_def nba_inc_low_def nba_inc_high_def nba_branch_def)
  have entry: "fst (nba_branch (nba_load (nba_enter s))) = s"
    by (simp add: frame) (simp add: nba_enter_def)
  have commit: "nba_commit (nba_branch (nba_load (nba_enter s)))
       = s\<lparr>regfile_DOT_regs := nba_next (reset s) (regfile_DOT_regs s)\<rparr>"
    by (simp add: nba_commit_def entry nba_shadow_next)
  show ?thesis
    using frame commit
    by (simp add: nba_inc_low_reads_register nba_inc_high_reads_register nba_shadow_next
        nba_sequent_regs_next)
qed

section \<open>Reset and increment on a clock edge\<close>

text \<open>
  C1: for every initial value of the 64-bit register, with reset asserted the NBA block
  leaves the register and the output at 0; and one evaluation of an initialised model
  whose active trigger vector holds no flag beyond its two declared ones, taken at a
  rising clock edge with reset asserted, returns with the register at 0 and with output
  bit 0 and output bits 1 to 3 at 0. Every state a driver reaches has such a trigger
  vector (\<open>drive_converges\<close>).
\<close>

theorem C1_reset_clears_state:
  assumes init: "Vm_didInit y" and wf: "drop_bit 2 (VactTriggered (TOP y)) = 0"
    and edge: "rising (Vtrigprevexpr_TOP_clock_0 (TOP y)) (clock (TOP y))"
    and rst: "reset (TOP y) \<noteq> 0"
  shows "regfile_DOT_regs (nba_sequent_TOP_0 (TOP y)) = 0
         \<and> val (nba_sequent_TOP_0 (TOP y)) = 0
         \<and> (\<exists>y'. eval_step y = Inr y' \<and> regfile_DOT_regs (TOP y') = 0
                  \<and> val (TOP y') AND 1 = 0 \<and> val (TOP y') AND 0xe = 0)"
proof -
  have blk: "nba_sequent_TOP_0 (TOP y) = (TOP y)\<lparr>regfile_DOT_regs := 0, val := 0\<rparr>"
    using rst by (simp add: nba_sequent_eq nba_next_def code_output_0)
  have "eval_step y = Inr (y\<lparr>TOP := scheduler_done (nba_sequent_TOP_0 (TOP y))\<rparr>)"
    using eval_step_running [OF init wf] edge by (simp add: eval_result_edge)
  with blk show ?thesis by simp
qed

theorem C1_reset_clears_state_witness:
  "Vm_didInit c1_input \<and> drop_bit 2 (VactTriggered (TOP c1_input)) = 0
   \<and> rising (Vtrigprevexpr_TOP_clock_0 (TOP c1_input)) (clock (TOP c1_input))
   \<and> reset (TOP c1_input) \<noteq> 0
   \<and> (\<exists>y'. eval_step c1_input = Inr y' \<and> regfile_DOT_regs (TOP y') = 0
            \<and> val (TOP y') AND 1 = 0 \<and> val (TOP y') AND 0xe = 0)"
proof -
  have h1: "Vm_didInit c1_input"
    and h2: "drop_bit 2 (VactTriggered (TOP c1_input)) = 0"
    and h3: "rising (Vtrigprevexpr_TOP_clock_0 (TOP c1_input)) (clock (TOP c1_input))"
    and h4: "reset (TOP c1_input) \<noteq> 0"
    by (simp_all add: c1_input_def blank_root_def rising_def)
  from C1_reset_clears_state [OF h1 h2 h3 h4] h1 h2 h3 h4 show ?thesis by blast
qed


text \<open>
  C3, as stated, fails. The claim has the 16-bit field, which the specification places
  in the next 16 bits after the low 32, become its previous value plus one. With reset
  deasserted, low field \<open>0xFFFFFFFF\<close> and that field at 1, one evaluation at a rising
  clock edge leaves the register at \<open>0x100000000\<close>: the low field is 0 and the next 16
  bits are still 1, not 2.
\<close>

theorem C3_next_16_bits_counterexample:
  "Vm_didInit c3_next_input \<and> drop_bit 2 (VactTriggered (TOP c3_next_input)) = 0
   \<and> rising (Vtrigprevexpr_TOP_clock_0 (TOP c3_next_input)) (clock (TOP c3_next_input))
   \<and> reset (TOP c3_next_input) = 0
   \<and> low_field (regfile_DOT_regs (TOP c3_next_input)) = 0xFFFFFFFF
   \<and> next16 (regfile_DOT_regs (TOP c3_next_input)) = 1
   \<and> eval_step c3_next_input = Inr (scenario_state 0x100000000 0)
   \<and> regfile_DOT_regs (nba_sequent_TOP_0 (TOP c3_next_input)) = 0x100000000
   \<and> next16 (regfile_DOT_regs (TOP (scenario_state 0x100000000 0))) = 1
   \<and> next16 (regfile_DOT_regs (TOP (scenario_state 0x100000000 0)))
       \<noteq> next16 (regfile_DOT_regs (TOP c3_next_input)) + 1"
  by (simp add: c3_next_input_def scenario_state_def next16_def run_simps nba_sequent_regs_next)

text \<open>
  C3, amended: with reset deasserted, one evaluation of an initialised model (active
  trigger vector within its two declared flags) at a rising clock edge returns with the
  NBA block's register value committed. The two 16-bit halves of the low field, register
  bits 0 to 15 and register bits 16 to 31 (the 16-bit field the code updates), each
  become their pre-edge value plus one modulo \<open>0x10000\<close>, with no carry from one into
  the other; starting from low field \<open>0xFFFFFFFF\<close> the low field therefore becomes
  \<open>0x00000000\<close>. Register bits 32 to 63, the next 16 bits among them, stay as they
  were.
\<close>

theorem C3_halves_increment:
  assumes init: "Vm_didInit y" and wf: "drop_bit 2 (VactTriggered (TOP y)) = 0"
    and edge: "rising (Vtrigprevexpr_TOP_clock_0 (TOP y)) (clock (TOP y))"
    and rst: "reset (TOP y) = 0"
  shows "\<exists>y'. eval_step y = Inr y'
           \<and> regfile_DOT_regs (TOP y') = regfile_DOT_regs (nba_sequent_TOP_0 (TOP y))
           \<and> low16 (regfile_DOT_regs (TOP y')) = low16 (regfile_DOT_regs (TOP y)) + 1
           \<and> unat (low16 (regfile_DOT_regs (TOP y')))
               = (unat (low16 (regfile_DOT_regs (TOP y))) + 1) mod 0x10000
           \<and> field16 (regfile_DOT_regs (TOP y')) = field16 (regfile_DOT_regs (TOP y)) + 1
           \<and> unat (field16 (regfile_DOT_regs (TOP y')))
               = (unat (field16 (regfile_DOT_regs (TOP y))) + 1) mod 0x10000
           \<and> low_field (regfile_DOT_regs (TOP y'))
               = (push_bit 16 (ucast (field16 (regfile_DOT_regs (TOP y)) + 1))
                  OR ucast (low16 (regfile_DOT_regs (TOP y)) + 1))
           \<and> (low_field (regfile_DOT_regs (TOP y)) = 0xFFFFFFFF
                \<longrightarrow> low_field (regfile_DOT_regs (TOP y')) = 0x00000000)
           \<and> next16 (regfile_DOT_regs (TOP y')) = next16 (regfile_DOT_regs (TOP y))
           \<and> drop_bit 32 (regfile_DOT_regs (TOP y')) = drop_bit 32 (regfile_DOT_regs (TOP y))"
proof -
  let ?r = "regfile_DOT_regs (TOP y)"
  have "eval_step y = Inr (y\<lparr>TOP := scheduler_done (nba_sequent_TOP_0 (TOP y))\<rparr>)"
    using eval_step_running [OF init wf] edge by (simp add: eval_result_edge)
  moreover have "regfile_DOT_regs (nba_sequent_TOP_0 (TOP y)) = nba_next 0 ?r"
    using rst by (simp add: nba_sequent_regs_next)
  moreover have "low_field (nba_next 0 ?r)
                 = (push_bit 16 (ucast (field16 ?r + 1)) OR ucast (low16 ?r + 1))"
    using low_field_halves [of "nba_next 0 ?r"]
    by (simp add: field16_nba_next low16_nba_next)
  moreover have "low_field ?r = 0xFFFFFFFF \<longrightarrow> low_field (nba_next 0 ?r) = 0"
    by (simp add: low_field_wraps)
  ultimately show ?thesis
    by (simp add: field16_nba_next low16_nba_next next16_nba_next
        unat_field16_succ upper_nba_next)
qed

theorem C3_halves_increment_witness:
  "Vm_didInit c3_input \<and> drop_bit 2 (VactTriggered (TOP c3_input)) = 0
   \<and> rising (Vtrigprevexpr_TOP_clock_0 (TOP c3_input)) (clock (TOP c3_input))
   \<and> reset (TOP c3_input) = 0
   \<and> low_field (regfile_DOT_regs (TOP c3_input)) = 0xFFFFFFFF
   \<and> (\<exists>y'. eval_step c3_input = Inr y'
            \<and> low_field (regfile_DOT_regs (TOP y')) = 0
            \<and> low16 (regfile_DOT_regs (TOP y')) = 0xFFFF + 1
            \<and> field16 (regfile_DOT_regs (TOP y')) = 0xFFFF + 1
            \<and> next16 (regfile_DOT_regs (TOP y')) = 0)"
proof -
  have h1: "Vm_didInit c3_input"
    and h2: "drop_bit 2 (VactTriggered (TOP c3_input)) = 0"
    and h3: "rising (Vtrigprevexpr_TOP_clock_0 (TOP c3_input)) (clock (TOP c3_input))"
    and h4: "reset (TOP c3_input) = 0"
    and h5: "low_field (regfile_DOT_regs (TOP c3_input)) = 0xFFFFFFFF"
    and h6: "field16 (regfile_DOT_regs (TOP c3_input)) = 0xFFFF"
    and h7: "low16 (regfile_DOT_regs (TOP c3_input)) = 0xFFFF"
    and h8: "next16 (regfile_DOT_regs (TOP c3_input)) = 0"
    by (simp_all add: c3_input_def blank_root_def rising_def low_field_def field16_def
        low16_def next16_def)
  from C3_halves_increment [OF h1 h2 h3 h4] h1 h2 h3 h4 h5 h6 h7 h8 show ?thesis
    by auto
qed

section \<open>Idempotence of evaluation\<close>

text \<open>
  C5: evaluation is idempotent on stable state. For every state, if a call of evaluate
  returns and evaluate is called again with clock and reset unchanged, the second call
  returns the very state the first one returned: every signal, the output and the
  register included, is the same and nothing further is written.
\<close>

theorem C5_evaluate_idempotent:
  assumes "eval_step y = Inr y1"
  shows "eval_step y1 = Inr y1"
proof -
  from eval_step_Inr [OF assms] obtain t where i: "Vm_didInit y1" and e: "eval t = Inr (TOP y1)"
    by blast
  from eval_fixed [OF e] i show ?thesis
    by (simp add: eval_step_def)
qed

theorem C5_evaluate_idempotent_witness:
  "eval_step c5_input = Inr c5_settled \<and> eval_step c5_settled = Inr c5_settled"
  using c5_first C5_evaluate_idempotent [OF c5_first] by simp

section \<open>Edge-only triggering\<close>




section \<open>The upper half of the register\<close>

text \<open>
  C9: bits 63:32 of the register are zero in every reachable state. Construction writes
  zero, the reset branch writes zero, the increment branch and the settle block keep
  bits 63:32, and so every state a driver reaches from a constructed model by setting
  clock and reset and evaluating has them zero.
\<close>

theorem C9_upper_bits_zero:
  "regfile_DOT_regs (ctor_var_reset rand_reset VscopeHash raw) = 0
   \<and> drop_bit 32 (regfile_DOT_regs (nba_sequent_TOP_0 s))
       = (if reset s \<noteq> 0 then 0 else drop_bit 32 (regfile_DOT_regs s))
   \<and> regfile_DOT_regs (stl_sequent_TOP_0 s) = regfile_DOT_regs s
   \<and> (\<forall>ops y. drive ops (construct rand_reset VscopeHash raw) = Inr y
          \<longrightarrow> drop_bit 32 (regfile_DOT_regs (TOP y)) = 0)"
proof -
  have "drop_bit 32 (regfile_DOT_regs (TOP (construct rand_reset VscopeHash raw))) = 0"
    by (simp add: construct_def ctor_var_reset_def)
  then have "\<forall>ops y. drive ops (construct rand_reset VscopeHash raw) = Inr y
          \<longrightarrow> drop_bit 32 (regfile_DOT_regs (TOP y)) = 0"
    by (blast intro: drive_upper)
  then show ?thesis
    by (simp add: ctor_var_reset_def nba_sequent_regs_next upper_nba_next stl_sequent_eq)
qed

theorem C9_upper_bits_zero_witness:
  "drive [Evaluate, SetClock 1, Evaluate] (construct (\<lambda>w h salt. 0) 0 blank_root) = Inr c9_final
   \<and> regfile_DOT_regs (TOP c9_final) = 0x10001
   \<and> drop_bit 32 (regfile_DOT_regs (TOP c9_final)) = 0"
proof -
  from C9_upper_bits_zero [of "\<lambda>w h salt. 0" 0 blank_root blank_root]
  have "\<forall>ops y. drive ops (construct (\<lambda>w h salt. 0) 0 blank_root) = Inr y
          \<longrightarrow> drop_bit 32 (regfile_DOT_regs (TOP y)) = 0"
    by blast
  with c9_run have "drop_bit 32 (regfile_DOT_regs (TOP c9_final)) = 0"
    by blast
  with c9_run show ?thesis
    by (simp add: c9_final_def)
qed

section \<open>Non-convergence\<close>

text \<open>
  C4, as stated, fails. The claim has the diagnostic name the region and the iteration
  count. Each loop entered beyond its cap, and an evaluation whose region never
  converges, aborts with a diagnostic made of the file \<open>regfile.sv\<close>, the line 16, an
  empty hierarchy and a message that names the region and holds no digit: no count.
\<close>

theorem C4_diagnostic_names_count_counterexample:
  "stl_loop 1 101 blank_root = Inl stl_diag
   \<and> act_loop (blank_root\<lparr>VactContinue := 1, VactIterCount := 101\<rparr>) = Inl act_diag
   \<and> nba_loop 1 101 blank_root = Inl nba_diag
   \<and> eval c4_over = Inl act_diag
   \<and> eval_settle c4_over = Inl stl_diag
   \<and> stl_diag = Fatal ''regfile.sv'' 16 '''' ''Settle region did not converge.''
   \<and> act_diag = Fatal ''regfile.sv'' 16 '''' ''Active region did not converge.''
   \<and> nba_diag = Fatal ''regfile.sv'' 16 '''' ''NBA region did not converge.''
   \<and> \<not> has_digit (fatal_msg stl_diag) \<and> \<not> has_digit (fatal_msg act_diag)
   \<and> \<not> has_digit (fatal_msg nba_diag)"
proof -
  have "eval c4_over = Inl act_diag"
    by (rule eval_diverges) (simp add: c4_over_def blank_root_def)
  moreover have "eval_settle c4_over = Inl stl_diag"
    by (rule eval_settle_diverges) (simp add: c4_over_def blank_root_def)
  moreover have "stl_loop 1 101 blank_root = Inl stl_diag"
    by (simp add: stl_loop_fatal)
  moreover have "nba_loop 1 101 blank_root = Inl nba_diag"
    by (simp add: nba_loop_fatal)
  moreover have "act_loop (blank_root\<lparr>VactContinue := 1, VactIterCount := 101\<rparr>) = Inl act_diag"
    by (simp add: act_loop_fatal)
  ultimately show ?thesis
    using no_digits by (simp add: stl_diag_def act_diag_def nba_diag_def)
qed

text \<open>
  C4, amended: for each of the settle, active and NBA regions, whenever the region's loop
  is at its head beyond the cap of 100 iterations, the evaluation aborts with the
  region's diagnostic, which names the region and carries no iteration count; a region
  that reports activity in every iteration runs into the cap; and the error is not
  retried: it passes unchanged through the NBA loop, the evaluation step and the
  driver's run.
\<close>

theorem C4_nonconvergence_is_fatal:
  "(c \<noteq> 0 \<and> 0x64 < n \<longrightarrow> stl_loop c n s = Inl stl_diag \<and> nba_loop c n s = Inl nba_diag)
   \<and> (VactContinue s \<noteq> 0 \<and> 0x64 < VactIterCount s \<longrightarrow> act_loop s = Inl act_diag)
   \<and> (drop_bit 1 (VstlTriggered s) \<noteq> 0 \<longrightarrow> eval_settle s = Inl stl_diag)
   \<and> (drop_bit 2 (VactTriggered s) \<noteq> 0 \<longrightarrow> eval s = Inl act_diag)
   \<and> (c \<noteq> 0 \<and> \<not> 0x64 < n \<and> act_loop (s\<lparr>VactIterCount := 0, VactContinue := 1\<rparr>) = Inl e
        \<longrightarrow> nba_loop c n s = Inl e)
   \<and> (Vm_didInit y \<and> eval (TOP y) = Inl e \<longrightarrow> eval_step y = Inl e)
   \<and> (\<not> Vm_didInit y \<and> eval_settle (eval_initial (eval_static (TOP y))) = Inl e
        \<longrightarrow> eval_step y = Inl e)
   \<and> (drive_op x y = Inl e \<longrightarrow> drive (x # xs) y = Inl e)
   \<and> stl_diag = Fatal ''regfile.sv'' 16 '''' ''Settle region did not converge.''
   \<and> act_diag = Fatal ''regfile.sv'' 16 '''' ''Active region did not converge.''
   \<and> nba_diag = Fatal ''regfile.sv'' 16 '''' ''NBA region did not converge.''"
  by (simp add: stl_loop_fatal nba_loop_fatal act_loop_fatal eval_settle_diverges eval_diverges
      nba_loop_iter eval_step_def Let_def stl_diag_def act_diag_def nba_diag_def)

theorem C4_nonconvergence_is_fatal_witness:
  "(1 :: CData) \<noteq> 0 \<and> (0x64 :: IData) < 101 \<and> \<not> (0x64 :: IData) < 0
   \<and> stl_loop 1 101 c4_over = Inl stl_diag \<and> nba_loop 1 101 c4_over = Inl nba_diag
   \<and> VactContinue c4_over \<noteq> 0 \<and> 0x64 < VactIterCount c4_over
   \<and> act_loop c4_over = Inl act_diag
   \<and> drop_bit 1 (VstlTriggered c4_over) \<noteq> 0 \<and> eval_settle c4_over = Inl stl_diag
   \<and> drop_bit 2 (VactTriggered c4_over) \<noteq> 0 \<and> eval c4_over = Inl act_diag
   \<and> act_loop (c4_over\<lparr>VactIterCount := 0, VactContinue := 1\<rparr>) = Inl act_diag
   \<and> nba_loop 1 0 c4_over = Inl act_diag
   \<and> Vm_didInit \<lparr>Vm_didInit = True, TOP = c4_over\<rparr>
   \<and> eval_step \<lparr>Vm_didInit = True, TOP = c4_over\<rparr> = Inl act_diag
   \<and> \<not> Vm_didInit \<lparr>Vm_didInit = False, TOP = c4_over\<rparr>
   \<and> eval_settle (eval_initial (eval_static c4_over)) = Inl stl_diag
   \<and> eval_step \<lparr>Vm_didInit = False, TOP = c4_over\<rparr> = Inl stl_diag
   \<and> drive_op Evaluate \<lparr>Vm_didInit = True, TOP = c4_over\<rparr> = Inl act_diag
   \<and> drive [Evaluate, Evaluate] \<lparr>Vm_didInit = True, TOP = c4_over\<rparr> = Inl act_diag"
proof -
  let ?y = "\<lparr>Vm_didInit = True, TOP = c4_over\<rparr>"
  let ?z = "\<lparr>Vm_didInit = False, TOP = c4_over\<rparr>"
  note a = C4_nonconvergence_is_fatal [of 1 101 c4_over act_diag ?y Evaluate "[Evaluate]"]
  note b = C4_nonconvergence_is_fatal [of 1 0 c4_over act_diag ?y Evaluate "[Evaluate]"]
  note c = C4_nonconvergence_is_fatal [of 1 101 c4_over stl_diag ?z Evaluate "[Evaluate]"]
  have h: "(1 :: CData) \<noteq> 0" "(0x64 :: IData) < 101" "\<not> (0x64 :: IData) < 0"
    "VactContinue c4_over \<noteq> 0" "0x64 < VactIterCount c4_over"
    "drop_bit 1 (VstlTriggered c4_over) \<noteq> 0" "drop_bit 2 (VactTriggered c4_over) \<noteq> 0"
    "Vm_didInit ?y" "\<not> Vm_didInit ?z"
    by (simp_all add: c4_over_def blank_root_def)
  have l: "act_loop (c4_over\<lparr>VactIterCount := 0, VactContinue := 1\<rparr>) = Inl act_diag"
    by (rule act_stuck) (simp_all add: c4_over_def blank_root_def)
  have s: "eval_settle (eval_initial (eval_static c4_over)) = Inl stl_diag"
    by (rule eval_settle_diverges)
       (simp add: eval_initial_def eval_static_def c4_over_def blank_root_def)
  from a h have e: "eval c4_over = Inl act_diag" by blast
  from a h e have st: "eval_step ?y = Inl act_diag" by simp
  then have dop: "drive_op Evaluate ?y = Inl act_diag" by simp
  from a dop have d: "drive [Evaluate, Evaluate] ?y = Inl act_diag" by blast
  from b h l have n: "nba_loop 1 0 c4_over = Inl act_diag" by blast
  from c h s have z: "eval_step ?z = Inl stl_diag" by simp
  from a h have "stl_loop 1 101 c4_over = Inl stl_diag" "nba_loop 1 101 c4_over = Inl nba_diag"
    "act_loop c4_over = Inl act_diag" "eval_settle c4_over = Inl stl_diag"
    by blast+
  with h l s e st dop d n z show ?thesis by simp
qed

end
